theory Spec2Isabelle
  imports Complex_Main "HOL-Library.Word"
begin

unbundle bit_operations_syntax

section \<open>Python values and exceptions\<close>

text \<open>
  The bot swarm tool of \<^verbatim>\<open>tools/stress-test/bot_swarm.py\<close> is embedded as pure
  functions over explicit state. Python integers are \<open>int\<close>, bytes objects are lists
  of 8-bit words, and finite Python floats are the real numbers they denote. Where a
  result depends on how a float operation rounds (the angle quantization and the
  timestamp of the input packet) the operation rounds to the nearest double, as
  defined below; elsewhere arithmetic on floats is exact in the model. An exception of
  the source is a value \<open>Inl e\<close> of a sum type.
\<close>

type_synonym byte = "8 word"

datatype py_error =
  StructError | IndexError | ZeroDivisionError | TimeoutError | OSError | AttributeError
  | OverflowError | StatisticsError

text \<open>Sequencing of computations that may raise.\<close>

definition bind_r :: "py_error + 'a \<Rightarrow> ('a \<Rightarrow> py_error + 'b) \<Rightarrow> py_error + 'b" where
  "bind_r m f = (case m of Inl e \<Rightarrow> Inl e | Inr x \<Rightarrow> f x)"

text \<open>\<^verbatim>\<open>int(x)\<close> on a float truncates towards zero.\<close>

definition py_int :: "real \<Rightarrow> int" where
  "py_int x = (if 0 \<le> x then \<lfloor>x\<rfloor> else \<lceil>x\<rceil>)"

text \<open>\<^verbatim>\<open>x % m\<close> on floats with a positive modulus: the result lies in \<open>[0, m)\<close>.\<close>

definition py_fmod :: "real \<Rightarrow> real \<Rightarrow> real" where
  "py_fmod x m = x - of_int \<lfloor>x / m\<rfloor> * m"

section \<open>Binary floating point\<close>

text \<open>
  A Python float is an IEEE 754 binary64 value. The result of a float operation is the
  exact result rounded to the nearest double, ties to the even significand:
  \<open>double_exponent\<close> finds the binade of the exact result (exponents -1022 to 1023, the
  lowest one also holding the subnormal numbers), the spacing of the doubles there is
  \<open>2 ^ (k - 52)\<close>, and the exact result is rounded to a multiple of it. \<open>None\<close>
  stands for an infinity: the result of an overflow. \<^verbatim>\<open>int(x)\<close> raises
  \<^verbatim>\<open>OverflowError\<close> on an infinity.
\<close>

definition round_half_even :: "real \<Rightarrow> int" where
  "round_half_even r =
     (let f = \<lfloor>r\<rfloor>; d = r - of_int f
      in if d < 1 / 2 then f else if 1 / 2 < d then f + 1 else if even f then f else f + 1)"

definition double_exponent :: "real \<Rightarrow> int option" where
  "double_exponent x = find (\<lambda>k. \<bar>x\<bar> < 2 powi (k + 1)) [- 1022..1023]"

definition double_round :: "real \<Rightarrow> real option" where
  "double_round x =
     (case double_exponent x of
        None \<Rightarrow> None
      | Some k \<Rightarrow>
          let ulp = 2 powi (k - 52);
              r = of_int (round_half_even (x / ulp)) * ulp
          in if \<bar>r\<bar> < 2 powi 1024 then Some r else None)"

definition float_mul :: "real \<Rightarrow> real \<Rightarrow> real option" where
  "float_mul x y = double_round (x * y)"

definition py_int_float :: "real option \<Rightarrow> py_error + int" where
  "py_int_float v = (case v of None \<Rightarrow> Inl OverflowError | Some x \<Rightarrow> Inr (py_int x))"

section \<open>The struct module, little-endian standard sizes\<close>

text \<open>
  The format characters the tool uses with the \<^verbatim>\<open><\<close> prefix (no padding):
  \<^verbatim>\<open>B\<close> one unsigned byte, \<^verbatim>\<open>I\<close> four, \<^verbatim>\<open>Q\<close> eight, \<^verbatim>\<open>h\<close> two signed.
  \<^verbatim>\<open>struct.pack\<close> raises \<^verbatim>\<open>struct.error\<close> on an argument outside the range
  of its format character.
\<close>

datatype fmt_char = Fmt_B | Fmt_I | Fmt_Q | Fmt_h

fun fmt_size :: "fmt_char \<Rightarrow> nat" where
  "fmt_size Fmt_B = 1"
| "fmt_size Fmt_I = 4"
| "fmt_size Fmt_Q = 8"
| "fmt_size Fmt_h = 2"

fun fmt_signed :: "fmt_char \<Rightarrow> bool" where
  "fmt_signed Fmt_h = True"
| "fmt_signed f = False"

definition fmt_in_range :: "fmt_char \<Rightarrow> int \<Rightarrow> bool" where
  "fmt_in_range f v =
     (if fmt_signed f
      then - (256 ^ fmt_size f div 2) \<le> v \<and> v < 256 ^ fmt_size f div 2
      else 0 \<le> v \<and> v < 256 ^ fmt_size f)"

definition le_bytes :: "nat \<Rightarrow> int \<Rightarrow> byte list" where
  "le_bytes n v = map (\<lambda>i. word_of_int (v div 256 ^ i)) [0..<n]"

definition pack_field :: "fmt_char \<Rightarrow> int \<Rightarrow> py_error + byte list" where
  "pack_field f v = (if fmt_in_range f v then Inr (le_bytes (fmt_size f) v) else Inl StructError)"

fun struct_pack :: "(fmt_char \<times> int) list \<Rightarrow> py_error + byte list" where
  "struct_pack [] = Inr []"
| "struct_pack ((f, v) # rest) =
     bind_r (pack_field f v) (\<lambda>bs. bind_r (struct_pack rest) (\<lambda>cs. Inr (bs @ cs)))"

text \<open>
  \<^verbatim>\<open>struct.unpack('<I', buf)[0]\<close>: the buffer must hold exactly four bytes,
  otherwise \<^verbatim>\<open>struct.error\<close> is raised.
\<close>

fun le_uint :: "byte list \<Rightarrow> int" where
  "le_uint [] = 0"
| "le_uint (b # bs) = uint b + 256 * le_uint bs"

definition unpack_I :: "byte list \<Rightarrow> py_error + int" where
  "unpack_I buf = (if length buf = 4 then Inr (le_uint buf) else Inl StructError)"

text \<open>A slice \<^verbatim>\<open>data[i:j]\<close> never raises: it is cut to the data.\<close>

definition py_slice :: "'a list \<Rightarrow> nat \<Rightarrow> nat \<Rightarrow> 'a list" where
  "py_slice xs i j = take (j - i) (drop i xs)"

text \<open>An index \<^verbatim>\<open>data[i]\<close> raises \<^verbatim>\<open>IndexError\<close> out of range.\<close>

definition item :: "'a list \<Rightarrow> nat \<Rightarrow> py_error + 'a" where
  "item xs i = (if i < length xs then Inr (xs ! i) else Inl IndexError)"

section \<open>Protocol constants\<close>

definition MAX_DOWNSTREAM_BYTES_PER_SEC :: real where
  "MAX_DOWNSTREAM_BYTES_PER_SEC = 20480"

definition MAX_UPSTREAM_BYTES_PER_SEC :: real where
  "MAX_UPSTREAM_BYTES_PER_SEC = 2048"

definition PROTOCOL_VERSION :: int where
  "PROTOCOL_VERSION = 1"

definition PACKET_CLIENT_INPUT :: int where "PACKET_CLIENT_INPUT = 1"
definition PACKET_SERVER_SNAPSHOT :: int where "PACKET_SERVER_SNAPSHOT = 2"
definition PACKET_CONNECTION_REQUEST :: int where "PACKET_CONNECTION_REQUEST = 3"
definition PACKET_CONNECTION_RESPONSE :: int where "PACKET_CONNECTION_RESPONSE = 4"
definition PACKET_EVENT :: int where "PACKET_EVENT = 5"
definition PACKET_SERVER_CORRECTION :: int where "PACKET_SERVER_CORRECTION = 6"

definition INPUT_FORWARD :: int where "INPUT_FORWARD = 0x01"
definition INPUT_BACKWARD :: int where "INPUT_BACKWARD = 0x02"
definition INPUT_LEFT :: int where "INPUT_LEFT = 0x04"
definition INPUT_RIGHT :: int where "INPUT_RIGHT = 0x08"
definition INPUT_JUMP :: int where "INPUT_JUMP = 0x10"
definition INPUT_ATTACK :: int where "INPUT_ATTACK = 0x20"
definition INPUT_BLOCK :: int where "INPUT_BLOCK = 0x40"
definition INPUT_SPRINT :: int where "INPUT_SPRINT = 0x80"

section \<open>The bot\<close>

text \<open>
  \<^verbatim>\<open>GameBot.input_state\<close> is a dict with the same eight keys throughout; it is a
  record of eight flags here. The fields \<^verbatim>\<open>position\<close>, \<^verbatim>\<open>velocity\<close>,
  \<^verbatim>\<open>latencies\<close> and \<^verbatim>\<open>last_ping_time\<close> are written by the constructor only
  and read nowhere; they are left out. \<open>socket_open\<close> stands for
  \<^verbatim>\<open>self.socket is not None\<close>.
\<close>

record input_state =
  forward :: bool
  backward :: bool
  left :: bool
  right :: bool
  sprint :: bool
  jump :: bool
  attack :: bool
  block :: bool

record game_bot =
  bot_id :: int
  movement_pattern :: string
  update_rate :: real
  socket_open :: bool
  connected :: bool
  entity_id :: "int option"
  connection_id :: "int option"
  server_tick :: int
  server_time :: int
  sequence :: int
  start_time :: real
  packets_sent :: int
  packets_received :: int
  bytes_sent :: int
  bytes_received :: int
  snapshot_count :: int
  correction_count :: int
  event_count :: int
  last_processed_input :: int
  yaw :: real
  pitch :: real
  inputs :: input_state
  target_entity :: int

text \<open>
  The constructor. The initial yaw is \<^verbatim>\<open>random.uniform(0, 6.28318530718)\<close>; the
  draw is the parameter \<open>y0\<close>.
\<close>

definition no_input :: input_state where
  "no_input = \<lparr>forward = False, backward = False, left = False, right = False,
     sprint = False, jump = False, attack = False, block = False\<rparr>"

definition new_bot :: "int \<Rightarrow> string \<Rightarrow> real \<Rightarrow> real \<Rightarrow> game_bot" where
  "new_bot bid pat rate y0 =
     \<lparr>bot_id = bid, movement_pattern = pat, update_rate = rate,
      socket_open = False, connected = False, entity_id = None, connection_id = None,
      server_tick = 0, server_time = 0, sequence = 0, start_time = 0,
      packets_sent = 0, packets_received = 0, bytes_sent = 0, bytes_received = 0,
      snapshot_count = 0, correction_count = 0, event_count = 0,
      last_processed_input = 0, yaw = y0, pitch = 0, inputs = no_input,
      target_entity = 0\<rparr>"

section \<open>Encoding\<close>

text \<open>\<^verbatim>\<open>GameBot._create_connection_request\<close> and \<^verbatim>\<open>GameBot._create_input_packet\<close>.\<close>

definition create_connection_request :: "game_bot \<Rightarrow> py_error + byte list" where
  "create_connection_request b =
     struct_pack [(Fmt_B, PACKET_CONNECTION_REQUEST), (Fmt_I, PROTOCOL_VERSION),
                  (Fmt_Q, bot_id b)]"

definition input_flags :: "input_state \<Rightarrow> int" where
  "input_flags s =
     (let flags = 0;
          flags = (if forward s then flags OR INPUT_FORWARD else flags);
          flags = (if backward s then flags OR INPUT_BACKWARD else flags);
          flags = (if left s then flags OR INPUT_LEFT else flags);
          flags = (if right s then flags OR INPUT_RIGHT else flags);
          flags = (if jump s then flags OR INPUT_JUMP else flags);
          flags = (if attack s then flags OR INPUT_ATTACK else flags);
          flags = (if block s then flags OR INPUT_BLOCK else flags);
          flags = (if sprint s then flags OR INPUT_SPRINT else flags)
      in flags)"

text \<open>
  The two quantization steps of \<^verbatim>\<open>_create_input_packet\<close>, the lines that
  compute \<^verbatim>\<open>yaw_quantized\<close> and \<^verbatim>\<open>pitch_quantized\<close>, under names of their
  own. \<^verbatim>\<open>self.yaw * 10000\<close> is a float product.
\<close>

definition quantize_yaw :: "real \<Rightarrow> py_error + int" where
  "quantize_yaw y =
     bind_r (py_int_float (float_mul y 10000)) (\<lambda>q.
       let yaw_quantized = q mod 65536
       in Inr (if yaw_quantized > 32767 then yaw_quantized - 65536 else yaw_quantized))"

definition quantize_pitch :: "real \<Rightarrow> py_error + int" where
  "quantize_pitch p = py_int_float (float_mul p 10000)"

text \<open>
  \<open>now\<close> is the value of \<^verbatim>\<open>time.time()\<close>. The statements run in the order of the
  source, so the first one that raises decides the exception. The sequence counter is
  incremented after \<^verbatim>\<open>struct.pack\<close> returned; when something raises, the bot is
  as before.
\<close>

definition create_input_packet :: "real \<Rightarrow> game_bot \<Rightarrow> py_error + (byte list \<times> game_bot)" where
  "create_input_packet now b =
     (let flags = input_flags (inputs b) in
      bind_r (quantize_yaw (yaw b)) (\<lambda>yaw_quantized.
      bind_r (quantize_pitch (pitch b)) (\<lambda>pitch_quantized.
      bind_r (py_int_float (float_mul now 1000)) (\<lambda>t.
        let timestamp = t mod 0xFFFFFFFF in
        bind_r
          (struct_pack [(Fmt_B, PACKET_CLIENT_INPUT), (Fmt_I, sequence b),
                        (Fmt_I, timestamp), (Fmt_B, flags), (Fmt_h, yaw_quantized),
                        (Fmt_h, pitch_quantized), (Fmt_I, target_entity b)])
          (\<lambda>packet. Inr (packet, b\<lparr>sequence := sequence b + 1\<rparr>))))))"

section \<open>Decoding\<close>

text \<open>
  \<^verbatim>\<open>_parse_connection_response\<close>, \<^verbatim>\<open>_parse_snapshot\<close>,
  \<^verbatim>\<open>_parse_correction\<close>, \<^verbatim>\<open>_parse_event\<close> and \<^verbatim>\<open>_process_packet\<close>.
  The parsers return \<^verbatim>\<open>None\<close> on every path; what they do is their effect on the
  bot. \<open>now\<close> is the value of \<^verbatim>\<open>time.time()\<close> at the call. Every index and
  every \<^verbatim>\<open>struct.unpack\<close> can raise; a raise is the result \<open>Inl e\<close>, without the
  assignments made before it (it is shown below that no parser ever raises).
\<close>

definition parse_connection_response :: "real \<Rightarrow> byte list \<Rightarrow> game_bot \<Rightarrow> py_error + game_bot" where
  "parse_connection_response now data b =
     (if length data < 18 then Inr b
      else bind_r (item data 1) (\<lambda>s.
        let success = (s \<noteq> 0) in
        if success then
          bind_r (unpack_I (py_slice data 2 6)) (\<lambda>cid.
          bind_r (unpack_I (py_slice data 6 10)) (\<lambda>eid.
          bind_r (unpack_I (py_slice data 10 14)) (\<lambda>tick.
          bind_r (unpack_I (py_slice data 14 18)) (\<lambda>time.
            Inr (b\<lparr>connection_id := Some cid, entity_id := Some eid,
                    server_tick := tick, server_time := time,
                    connected := True, start_time := now\<rparr>)))))
        else Inr b))"

definition parse_snapshot :: "byte list \<Rightarrow> game_bot \<Rightarrow> py_error + game_bot" where
  "parse_snapshot data b =
     (if length data < 17 then Inr b
      else
        bind_r (unpack_I (py_slice data 1 5)) (\<lambda>tick.
        bind_r (unpack_I (py_slice data 5 9)) (\<lambda>baseline_tick.
        bind_r (unpack_I (py_slice data 9 13)) (\<lambda>time.
        bind_r (unpack_I (py_slice data 13 17)) (\<lambda>lpi.
          Inr (b\<lparr>snapshot_count := snapshot_count b + 1, server_tick := tick,
                  server_time := time, last_processed_input := lpi\<rparr>))))))"

definition parse_correction :: "byte list \<Rightarrow> game_bot \<Rightarrow> game_bot" where
  "parse_correction data b = b\<lparr>correction_count := correction_count b + 1\<rparr>"

definition parse_event :: "byte list \<Rightarrow> game_bot \<Rightarrow> game_bot" where
  "parse_event data b = b\<lparr>event_count := event_count b + 1\<rparr>"

definition process_packet :: "byte list \<Rightarrow> game_bot \<Rightarrow> py_error + game_bot" where
  "process_packet data b =
     (if length data < 1 then Inr b
      else bind_r (item data 0) (\<lambda>t.
        let packet_type = uint t in
        if packet_type = PACKET_SERVER_SNAPSHOT then parse_snapshot data b
        else if packet_type = PACKET_SERVER_CORRECTION then Inr (parse_correction data b)
        else if packet_type = PACKET_EVENT then Inr (parse_event data b)
        else Inr b))"

section \<open>Connecting\<close>

text \<open>
  \<^verbatim>\<open>socket.send\<close> either succeeds (\<open>ok\<close>) or raises; on a bot without a socket
  the attribute access on \<^verbatim>\<open>None\<close> raises.
\<close>

definition send_packet :: "bool \<Rightarrow> byte list \<Rightarrow> game_bot \<Rightarrow> py_error + game_bot" where
  "send_packet ok data b =
     (if \<not> socket_open b then Inl AttributeError
      else if \<not> ok then Inl OSError
      else Inr (b\<lparr>packets_sent := packets_sent b + 1,
                   bytes_sent := bytes_sent b + int (length data)\<rparr>))"

text \<open>
  What one \<^verbatim>\<open>socket.recv\<close> on the non-blocking socket does: it returns a datagram,
  raises \<^verbatim>\<open>BlockingIOError\<close> (nothing to read) or raises another socket error.
  The wait of \<^verbatim>\<open>_wait_for_connection\<close> runs under a timeout of five seconds, so it
  sees a finite sequence of such outcomes: when the sequence is used up and the bot is
  still not connected, the timeout has fired.
\<close>

datatype recv_event = Datagram "byte list" | WouldBlock | RecvError

fun wait_for_connection :: "real \<Rightarrow> recv_event list \<Rightarrow> game_bot \<Rightarrow> (py_error + unit) \<times> game_bot" where
  "wait_for_connection now [] b =
     (if connected b then (Inr (), b) else (Inl TimeoutError, b))"
| "wait_for_connection now (WouldBlock # rest) b =
     (if connected b then (Inr (), b) else wait_for_connection now rest b)"
| "wait_for_connection now (RecvError # rest) b =
     (if connected b then (Inr (), b) else (Inl OSError, b))"
| "wait_for_connection now (Datagram d # rest) b =
     (if connected b then (Inr (), b)
      else
        let data = take 1024 d in
        if data \<noteq> [] \<and> length data \<ge> 1 then
          (case item data 0 of
             Inl e \<Rightarrow> (Inl e, b)
           | Inr t \<Rightarrow>
               let packet_type = uint t in
               (case (if packet_type = PACKET_CONNECTION_RESPONSE
                      then parse_connection_response now data b else Inr b) of
                  Inl e \<Rightarrow> (Inl e, b)
                | Inr b1 \<Rightarrow>
                    wait_for_connection now rest
                      (b1\<lparr>packets_received := packets_received b1 + 1,
                          bytes_received := bytes_received b1 + int (length data)\<rparr>)))
        else wait_for_connection now rest b)"

text \<open>
  The network as \<^verbatim>\<open>connect\<close> meets it: whether creating the socket and setting
  its destination succeed, whether the send succeeds, what the receives give, and the
  clock. \<^verbatim>\<open>connect\<close> returns a bool and prints one line; both are in the result.
\<close>

datatype sock_result = SockOk | SocketRaises | SockConnectRaises

record net_env =
  sock :: sock_result
  send_ok :: bool
  recv_events :: "recv_event list"
  clock :: real

datatype connect_log = LogConnected | LogTimeout | LogRejected | LogFailed

definition connect :: "net_env \<Rightarrow> game_bot \<Rightarrow> (bool \<times> connect_log) \<times> game_bot" where
  "connect env b =
     (if sock env = SocketRaises then ((False, LogFailed), b)
      else
        let b1 = b\<lparr>socket_open := True\<rparr> in
        if sock env = SockConnectRaises then ((False, LogFailed), b1)
        else
          (case create_connection_request b1 of
             Inl e \<Rightarrow> ((False, LogFailed), b1)
           | Inr connect_packet \<Rightarrow>
               (case send_packet (send_ok env) connect_packet b1 of
                  Inl e \<Rightarrow> ((False, LogFailed), b1)
                | Inr b2 \<Rightarrow>
                    (case wait_for_connection (clock env) (recv_events env) b2 of
                       (Inl e, b3) \<Rightarrow>
                         if e = TimeoutError then ((False, LogTimeout), b3)
                         else ((False, LogFailed), b3)
                     | (Inr u, b3) \<Rightarrow>
                         if connected b3 then ((True, LogConnected), b3)
                         else ((False, LogRejected), b3)))))"

definition disconnect :: "game_bot \<Rightarrow> game_bot" where
  "disconnect b = b\<lparr>socket_open := False, connected := False\<rparr>"

section \<open>Movement patterns\<close>

text \<open>
  The generator of the \<^verbatim>\<open>random\<close> module is the sequence of the values that
  \<^verbatim>\<open>random.random()\<close> returns from now on; \<^verbatim>\<open>random.uniform(a, b)\<close> is
  \<^verbatim>\<open>a + (b - a) * random.random()\<close>.
\<close>

type_synonym rng = "nat \<Rightarrow> real"

definition random_py :: "rng \<Rightarrow> real \<times> rng" where
  "random_py r = (r 0, \<lambda>n. r (Suc n))"

definition uniform :: "real \<Rightarrow> real \<Rightarrow> rng \<Rightarrow> real \<times> rng" where
  "uniform a c r = (case random_py r of (x, r') \<Rightarrow> (a + (c - a) * x, r'))"

definition update_random_movement :: "rng \<Rightarrow> game_bot \<Rightarrow> game_bot \<times> rng" where
  "update_random_movement r0 b0 =
     (case random_py r0 of (x1, r1) \<Rightarrow>
      case (if x1 < 0.05
            then (case uniform (-1) 1 r1 of (u, r) \<Rightarrow>
                    (b0\<lparr>yaw := py_fmod (yaw b0 + u) 6.28318530718\<rparr>, r))
            else (b0, r1)) of (b1, r2) \<Rightarrow>
      case random_py r2 of (x2, r3) \<Rightarrow>
      let b2 = b1\<lparr>inputs := (inputs b1)\<lparr>forward := (x2 > 0.3)\<rparr>\<rparr> in
      case random_py r3 of (x3, r4) \<Rightarrow>
      case (if x3 < 0.1
            then (case random_py r4 of (x4, r) \<Rightarrow>
                    if x4 < 0.5 then (b2\<lparr>inputs := (inputs b2)\<lparr>left := True\<rparr>\<rparr>, r)
                    else (b2\<lparr>inputs := (inputs b2)\<lparr>right := True\<rparr>\<rparr>, r))
            else (b2, r4)) of (b3, r5) \<Rightarrow>
      case (if forward (inputs b3)
            then (case random_py r5 of (x5, r) \<Rightarrow>
                    (b3\<lparr>inputs := (inputs b3)\<lparr>sprint := (x5 > 0.7)\<rparr>\<rparr>, r))
            else (b3, r5)) of (b4, r6) \<Rightarrow>
      case random_py r6 of (x6, r7) \<Rightarrow>
      (b4\<lparr>inputs := (inputs b4)\<lparr>jump := (x6 < 0.05)\<rparr>\<rparr>, r7))"

definition update_circle_movement :: "real \<Rightarrow> game_bot \<Rightarrow> game_bot" where
  "update_circle_movement elapsed b =
     (let b1 = b\<lparr>yaw := yaw b + 0.03\<rparr>;
          b2 = b1\<lparr>yaw := py_fmod (yaw b1) 6.28318530718\<rparr>
      in b2\<lparr>inputs := (inputs b2)\<lparr>forward := True, sprint := False\<rparr>\<rparr>)"

definition update_linear_movement :: "real \<Rightarrow> rng \<Rightarrow> game_bot \<Rightarrow> game_bot \<times> rng" where
  "update_linear_movement elapsed r b =
     (let cycle = py_fmod elapsed 10 / 5.0;
          b1 = (if cycle > 1 then b\<lparr>yaw := 3.14159265359\<rparr> else b\<lparr>yaw := 0.0\<rparr>)
      in case random_py r of (x, r') \<Rightarrow>
           (b1\<lparr>inputs := (inputs b1)\<lparr>forward := True, sprint := (x > 0.8)\<rparr>\<rparr>, r'))"

definition update_movement :: "real \<Rightarrow> rng \<Rightarrow> game_bot \<Rightarrow> game_bot \<times> rng" where
  "update_movement elapsed r b =
     (let b1 = b\<lparr>inputs := no_input\<rparr> in
      if movement_pattern b1 = ''random'' then update_random_movement r b1
      else if movement_pattern b1 = ''circle'' then (update_circle_movement elapsed b1, r)
      else if movement_pattern b1 = ''linear'' then update_linear_movement elapsed r b1
      else (b1, r))"

section \<open>The session after the handshake\<close>

text \<open>
  \<^verbatim>\<open>GameBot.run\<close> interleaves two cooperatively scheduled loops on one bot: its own
  loop (update the movement, at the input rate build and send an input packet) and
  \<^verbatim>\<open>_receive_loop\<close> (count a datagram and process it); afterwards the swarm calls
  \<^verbatim>\<open>disconnect\<close>. Between two suspension points a loop body runs alone, so a
  session is a sequence of the following steps in the order the scheduler ran them.
  A step that raises leaves the bot as the raise found it.
\<close>

datatype session_op =
    UpdateMovement real rng
  | SendInput real bool
  | Receive "byte list"
  | Disconnect

fun session_step :: "game_bot \<Rightarrow> session_op \<Rightarrow> game_bot" where
  "session_step b (UpdateMovement elapsed r) = fst (update_movement elapsed r b)"
| "session_step b (SendInput now ok) =
     (case create_input_packet now b of
        Inl e \<Rightarrow> b
      | Inr (input_packet, b1) \<Rightarrow>
          (case send_packet ok input_packet b1 of Inl e \<Rightarrow> b1 | Inr b2 \<Rightarrow> b2))"
| "session_step b (Receive d) =
     (let data = take 2048 d in
      if data \<noteq> [] then
        let b1 = b\<lparr>packets_received := packets_received b + 1,
                    bytes_received := bytes_received b + int (length data)\<rparr>
        in (case process_packet data b1 of Inl e \<Rightarrow> b1 | Inr b2 \<Rightarrow> b2)
      else b)"
| "session_step b Disconnect = disconnect b"

definition session :: "game_bot \<Rightarrow> session_op list \<Rightarrow> game_bot" where
  "session b ops = foldl session_step b ops"

section \<open>Statistics of one bot\<close>

text \<open>
  The dict that \<^verbatim>\<open>get_stats\<close> returns, a record with one field per key. A true
  division (\<^verbatim>\<open>/\<close>) raises \<^verbatim>\<open>ZeroDivisionError\<close> on a zero divisor.
\<close>

definition py_truediv :: "real \<Rightarrow> real \<Rightarrow> py_error + real" where
  "py_truediv a c = (if c = 0 then Inl ZeroDivisionError else Inr (a / c))"

record bot_stats =
  s_bot_id :: int
  s_entity_id :: "int option"
  s_connection_id :: "int option"
  s_packets_sent :: int
  s_packets_received :: int
  s_bytes_sent :: int
  s_bytes_received :: int
  s_snapshots_received :: int
  s_corrections_received :: int
  s_events_received :: int
  s_last_processed_input :: int
  s_duration_seconds :: real
  s_packets_sent_per_sec :: real
  s_packets_received_per_sec :: real
  s_bytes_sent_per_sec :: real
  s_bytes_received_per_sec :: real
  s_snapshots_per_sec :: real
  s_avg_bandwidth_down_kbps :: real
  s_avg_bandwidth_up_kbps :: real

definition elapsed_time :: "real \<Rightarrow> game_bot \<Rightarrow> real" where
  "elapsed_time now b =
     (if start_time b \<noteq> 0 then max (now - start_time b) 0.001 else 0.001)"

definition get_stats :: "real \<Rightarrow> game_bot \<Rightarrow> py_error + bot_stats" where
  "get_stats now b =
     (let elapsed = elapsed_time now b in
      bind_r (py_truediv (of_int (packets_sent b)) elapsed) (\<lambda>psps.
      bind_r (py_truediv (of_int (packets_received b)) elapsed) (\<lambda>prps.
      bind_r (py_truediv (of_int (bytes_sent b)) elapsed) (\<lambda>bsps.
      bind_r (py_truediv (of_int (bytes_received b)) elapsed) (\<lambda>brps.
      bind_r (py_truediv (of_int (snapshot_count b)) elapsed) (\<lambda>sps.
      bind_r (py_truediv (of_int (bytes_received b * 8) / 1024) elapsed) (\<lambda>down.
      bind_r (py_truediv (of_int (bytes_sent b * 8) / 1024) elapsed) (\<lambda>up.
        Inr \<lparr>s_bot_id = bot_id b,
             s_entity_id = entity_id b,
             s_connection_id = connection_id b,
             s_packets_sent = packets_sent b,
             s_packets_received = packets_received b,
             s_bytes_sent = bytes_sent b,
             s_bytes_received = bytes_received b,
             s_snapshots_received = snapshot_count b,
             s_corrections_received = correction_count b,
             s_events_received = event_count b,
             s_last_processed_input = last_processed_input b,
             s_duration_seconds = elapsed,
             s_packets_sent_per_sec = psps,
             s_packets_received_per_sec = prps,
             s_bytes_sent_per_sec = bsps,
             s_bytes_received_per_sec = brps,
             s_snapshots_per_sec = sps,
             s_avg_bandwidth_down_kbps = down,
             s_avg_bandwidth_up_kbps = up\<rparr>))))))))"

section \<open>The summary and its budget checks\<close>

text \<open>
  \<^verbatim>\<open>print_summary\<close> prints; the model returns what the budget lines print.
  On an empty list it prints a notice and returns (\<open>None\<close>). The first division by
  \<^verbatim>\<open>duration\<close> stands before the budget checks, so a zero duration raises there.
\<close>

definition py_max :: "real list \<Rightarrow> real" where
  "py_max xs = foldl max (hd xs) (tl xs)"

record budget_report =
  avg_up_per_bot :: real
  avg_down_per_bot :: real
  up_ok :: bool
  down_ok :: bool

definition print_summary :: "bot_stats list \<Rightarrow> py_error + budget_report option" where
  "print_summary stats =
     (if stats = [] then Inr None
      else
        let total_bytes_sent = sum_list (map s_bytes_sent stats);
            total_bytes_received = sum_list (map s_bytes_received stats);
            duration = py_max (map s_duration_seconds stats)
        in
        bind_r (py_truediv (of_int total_bytes_sent / of_nat (length stats)) duration) (\<lambda>up.
        bind_r (py_truediv (of_int total_bytes_received / of_nat (length stats)) duration) (\<lambda>down.
          Inr (Some \<lparr>avg_up_per_bot = up, avg_down_per_bot = down,
                      up_ok = (up \<le> MAX_UPSTREAM_BYTES_PER_SEC),
                      down_ok = (down \<le> MAX_DOWNSTREAM_BYTES_PER_SEC)\<rparr>))))"

section \<open>Percentiles\<close>

text \<open>
  \<^verbatim>\<open>BotSwarm._percentile\<close> of \<^verbatim>\<open>enhanced_bot_swarm.py\<close>. A list index may be
  negative in Python (it counts from the end) and raises out of range.
\<close>

definition py_index :: "'a list \<Rightarrow> int \<Rightarrow> py_error + 'a" where
  "py_index xs i =
     (if 0 \<le> i \<and> i < int (length xs) then Inr (xs ! nat i)
      else if i < 0 \<and> - int (length xs) \<le> i then Inr (xs ! nat (int (length xs) + i))
      else Inl IndexError)"

definition percentile :: "real list \<Rightarrow> int \<Rightarrow> py_error + real" where
  "percentile data p =
     (if data = [] then Inr 0.0
      else
        let sorted_data = sort data;
            index = py_int (of_int (int (length sorted_data) * p) / 100)
        in py_index sorted_data (min index (int (length sorted_data) - 1)))"

section \<open>The swarm\<close>

text \<open>
  \<^verbatim>\<open>asyncio.gather(..., return_exceptions=True)\<close> gives one result per task: the
  value it returned, or the exception it raised. \<^verbatim>\<open>BotSwarm.run\<close> is modelled
  over these results, given per bot id (bot \<open>i\<close> of \<open>bot_count\<close> has id \<open>i + 1\<close>),
  and returns the valid statistics together with the calls it made on its bots, in
  order. \<open>bot_count\<close> is a natural number: a negative count gives no bots, as 0 does.
\<close>

datatype 'a task_result = Returned 'a | Raised

datatype bot_call = CallConnect nat | CallRun nat | CallDisconnect nat

definition valid_results :: "'a task_result list \<Rightarrow> 'a list" where
  "valid_results rs = concat (map (\<lambda>r. case r of Returned s \<Rightarrow> [s] | Raised \<Rightarrow> []) rs)"

definition swarm_run ::
  "nat \<Rightarrow> (nat \<Rightarrow> bool task_result) \<Rightarrow> (nat \<Rightarrow> 's task_result) \<Rightarrow> 's list \<times> bot_call list" where
  "swarm_run bot_count connect_result run_result =
     (let bots = map (\<lambda>i. i + 1) [0..<bot_count];
          calls1 = map CallConnect bots;
          connect_results = map connect_result bots;
          connected_bots =
            map fst (filter (\<lambda>(b, result). result = Returned True) (zip bots connect_results))
      in if connected_bots = [] then ([], calls1)
         else
           let calls2 = calls1 @ map CallRun connected_bots;
               stats = map run_result connected_bots;
               valid_stats = valid_results stats;
               calls3 = calls2 @ map CallDisconnect bots
           in (valid_stats, calls3))"

definition disconnect_calls :: "bot_call list \<Rightarrow> nat \<Rightarrow> nat" where
  "disconnect_calls calls i = count_list calls (CallDisconnect i)"

text \<open>The ids of the bots whose \<^verbatim>\<open>run\<close> was called, in the order of the calls.\<close>

definition run_ids :: "bot_call list \<Rightarrow> nat list" where
  "run_ids calls = concat (map (\<lambda>c. case c of CallRun i \<Rightarrow> [i] | _ \<Rightarrow> []) calls)"

section \<open>The 1000-connection test\<close>

text \<open>
  \<^verbatim>\<open>StressTest\<close> of \<^verbatim>\<open>test_1000_connections.py\<close>. \<^verbatim>\<open>ConnectionStats\<close> is a
  record; its property \<^verbatim>\<open>duration\<close> is \<^verbatim>\<open>(disconnected_at or time.time()) -
  connected_at\<close>, where \<^verbatim>\<open>None\<close> and \<^verbatim>\<open>0.0\<close> both count as false.
  \<^verbatim>\<open>statistics.mean\<close> raises \<^verbatim>\<open>StatisticsError\<close> on empty data.
\<close>

record connection_stats =
  cs_connection_id :: int
  cs_connected_at :: real
  cs_disconnected_at :: "real option"
  cs_bytes_sent :: int
  cs_bytes_received :: int
  cs_packets_sent :: int
  cs_packets_received :: int
  cs_rtt_samples :: "real list"

definition cs_duration :: "real \<Rightarrow> connection_stats \<Rightarrow> real" where
  "cs_duration now s =
     (case cs_disconnected_at s of
        None \<Rightarrow> now
      | Some t \<Rightarrow> if t = 0 then now else t) - cs_connected_at s"

definition statistics_mean :: "real list \<Rightarrow> py_error + real" where
  "statistics_mean xs =
     (if xs = [] then Inl StatisticsError else Inr (sum_list xs / real (length xs)))"

text \<open>
  \<^verbatim>\<open>print_results\<close> prints and returns \<^verbatim>\<open>None\<close>; the model keeps the
  computations that can raise. \<open>now\<close> is the value of \<^verbatim>\<open>time.time()\<close> during the
  call.
\<close>

definition print_results :: "real \<Rightarrow> connection_stats list \<Rightarrow> py_error + unit" where
  "print_results now clients =
     (let total_sent = sum_list (map cs_bytes_sent clients);
          total_received = sum_list (map cs_bytes_received clients);
          all_rtts = concat (map cs_rtt_samples clients)
      in
      bind_r
        (if all_rtts \<noteq> [] then
           bind_r (statistics_mean all_rtts) (\<lambda>avg.
           bind_r (py_index (sort all_rtts) (py_int (real (length all_rtts) * 0.95))) (\<lambda>p95.
             Inr ()))
         else Inr ()) (\<lambda>u.
      bind_r (statistics_mean (map (cs_duration now) clients)) (\<lambda>avg_duration.
        if avg_duration > 0 then
          bind_r (py_truediv (of_int total_received) (real (length clients))) (\<lambda>r.
          bind_r (py_truediv r avg_duration) (\<lambda>downstream_per_player.
          bind_r (py_truediv (of_int total_sent) (real (length clients))) (\<lambda>t.
          bind_r (py_truediv t avg_duration) (\<lambda>upstream_per_player.
            Inr ()))))
        else Inr ())))"

definition verify_requirements :: "real \<Rightarrow> connection_stats list \<Rightarrow> py_error + bool" where
  "verify_requirements now clients =
     (let passed = True;
          active = length (filter (\<lambda>c. cs_disconnected_at c = None) clients);
          passed = (if active \<ge> 1000 then passed else False);
          all_rtts = concat (map cs_rtt_samples clients)
      in
      bind_r
        (if all_rtts \<noteq> [] then
           bind_r (statistics_mean all_rtts) (\<lambda>avg_rtt.
             Inr (if avg_rtt < 50 then passed else False))
         else Inr passed) (\<lambda>passed.
      let total_received = sum_list (map cs_bytes_received clients) in
      bind_r (statistics_mean (map (cs_duration now) clients)) (\<lambda>avg_duration.
        if avg_duration > 0 then
          bind_r (py_truediv (of_int total_received) (real (length clients))) (\<lambda>r.
          bind_r (py_truediv r avg_duration) (\<lambda>downstream_per_player.
            Inr (if downstream_per_player \<le> 20 * 1024 then passed else False)))
        else Inr passed)))"

text \<open>
  \<^verbatim>\<open>StressTest.run\<close>: the clients (ids \<open>0 ..< num_connections\<close>) connect in batches
  of 100, the results that are \<^verbatim>\<open>True\<close> are counted, and unless the count is below
  \<^verbatim>\<open>num_connections * 0.95\<close> the run phase is entered: all clients run (exceptions
  are gathered and dropped), then \<^verbatim>\<open>print_results\<close> and
  \<^verbatim>\<open>verify_requirements\<close> are called. \<open>after i\<close> is the \<^verbatim>\<open>stats\<close> of client
  \<open>i\<close> when the run phase is over, \<open>now1\<close> and \<open>now2\<close> are the clock during the
  two calls. \<open>num_connections\<close> is a natural number: a negative one gives no clients,
  as 0 does. The product \<^verbatim>\<open>num_connections * 0.95\<close> is taken exactly. The result is
  what \<^verbatim>\<open>run\<close> returns or raises, together with the ids of the clients whose
  \<^verbatim>\<open>run\<close> was started, \<open>None\<close> when the run phase was not entered.
\<close>

function connect_batches :: "(nat \<Rightarrow> bool task_result) \<Rightarrow> nat list \<Rightarrow> nat \<Rightarrow> nat" where
  "connect_batches connect_result clients count =
     (if clients = [] then count
      else
        let batch = take 100 clients;
            results = map connect_result batch
        in connect_batches connect_result (drop 100 clients)
             (count + length (filter (\<lambda>result. result = Returned True) results)))"
  by pat_completeness auto
termination
  by (relation "measure (\<lambda>(c, clients, n). length clients)") auto

definition stress_test_run ::
  "nat \<Rightarrow> (nat \<Rightarrow> bool task_result) \<Rightarrow> (nat \<Rightarrow> connection_stats) \<Rightarrow> real \<Rightarrow> real
     \<Rightarrow> (py_error + bool) \<times> nat list option" where
  "stress_test_run num_connections connect_result after now1 now2 =
     (let clients = [0..<num_connections];
          count = connect_batches connect_result clients 0
      in if real count < real num_connections * 0.95 then (Inr False, None)
         else
           (bind_r (print_results now1 (map after clients)) (\<lambda>u.
              verify_requirements now2 (map after clients)), Some clients))"

section \<open>The specification's wording, for comparison\<close>

text \<open>
  The yaw quantization as the specification words it: \<open>round(yaw * 10000) mod 65536\<close>,
  values above 32767 reduced by 65536.
\<close>

definition spec_yaw_quantized :: "real \<Rightarrow> int" where
  "spec_yaw_quantized y =
     (let q = round (y * 10000) mod 65536 in if q > 32767 then q - 65536 else q)"

text \<open>
  The acceptance policy as the specification words it: viable when the connected
  fraction is at least the configured threshold.
\<close>

definition spec_viable :: "real \<Rightarrow> nat \<Rightarrow> nat \<Rightarrow> bool" where
  "spec_viable threshold bots count = (real count / real bots \<ge> threshold)"

section \<open>Properties: helper lemmas\<close>

lemma bind_r_Inr: "bind_r m f = Inr y \<longleftrightarrow> (\<exists>x. m = Inr x \<and> f x = Inr y)"
  by (cases m) (simp_all add: bind_r_def)

lemma length_le_bytes: "length (le_bytes n v) = n"
  by (simp add: le_bytes_def)

lemma pack_field_length: "pack_field f v = Inr bs \<Longrightarrow> length bs = fmt_size f"
  by (auto simp: pack_field_def length_le_bytes split: if_splits)

lemma struct_pack_length:
  "struct_pack fs = Inr bs \<Longrightarrow> length bs = sum_list (map (fmt_size \<circ> fst) fs)"
proof (induction fs arbitrary: bs)
  case Nil
  then show ?case by simp
next
  case (Cons a fs)
  obtain f v where a: "a = (f, v)" by (cases a)
  from Cons.prems a obtain hs ts where
    h: "pack_field f v = Inr hs" and t: "struct_pack fs = Inr ts" and bs: "bs = hs @ ts"
    by (auto simp: bind_r_def split: sum.splits)
  show ?case
    using pack_field_length [OF h] Cons.IH [OF t] by (simp add: a bs)
qed

lemma create_connection_request_length:
  "create_connection_request b = Inr bs \<Longrightarrow> length bs = 13"
  unfolding create_connection_request_def
  by (drule struct_pack_length) simp

lemma create_input_packet_length:
  assumes "create_input_packet now b = Inr (bs, b')"
  shows "length bs = 18"
proof -
  from assms obtain fs where "struct_pack fs = Inr bs"
    and "map (fmt_size \<circ> fst) fs = [1, 4, 4, 1, 2, 2, 4]"
    unfolding create_input_packet_def Let_def bind_r_Inr
    by (auto simp del: struct_pack.simps)
  then show ?thesis
    using struct_pack_length [of fs bs] by simp
qed

lemma py_int_error: "\<bar>real_of_int (py_int x) - x\<bar> < 1"
proof (cases "0 \<le> x")
  case True
  then show ?thesis unfolding py_int_def by simp linarith
next
  case False
  then show ?thesis unfolding py_int_def by simp linarith
qed

text \<open>Rounding to the nearest double.\<close>

lemma round_half_even_bounds: "\<lfloor>r\<rfloor> \<le> round_half_even r \<and> round_half_even r \<le> \<lceil>r\<rceil>"
proof -
  have "r - of_int \<lfloor>r\<rfloor> \<ge> 1 / 2 \<Longrightarrow> \<lfloor>r\<rfloor> + 1 \<le> \<lceil>r\<rceil>"
    by linarith
  then show ?thesis
    unfolding round_half_even_def Let_def by (auto simp: not_less)
qed

lemma round_half_even_of_int: "round_half_even (of_int m) = m"
  by (simp add: round_half_even_def)

lemma find_upto_Some:
  "find P [lo..hi] = Some k \<longleftrightarrow>
     lo \<le> k \<and> k \<le> hi \<and> P k \<and> (\<forall>j. lo \<le> j \<and> j < k \<longrightarrow> \<not> P j)"
proof
  assume "find P [lo..hi] = Some k"
  then obtain i where i: "i < length [lo..hi]" and p: "P ([lo..hi] ! i)"
    and k: "k = [lo..hi] ! i" and n: "\<forall>j<i. \<not> P ([lo..hi] ! j)"
    unfolding find_Some_iff by blast
  from i have ki: "k = lo + int i" "lo + int i \<le> hi" unfolding k by (simp_all add: nth_upto)
  have "\<not> P j" if "lo \<le> j" "j < k" for j
  proof -
    from that ki have "nat (j - lo) < i" by simp
    with n have "\<not> P ([lo..hi] ! nat (j - lo))" by blast
    moreover have "[lo..hi] ! nat (j - lo) = j" using that ki by (simp add: nth_upto)
    ultimately show ?thesis by simp
  qed
  with ki p k show "lo \<le> k \<and> k \<le> hi \<and> P k \<and> (\<forall>j. lo \<le> j \<and> j < k \<longrightarrow> \<not> P j)"
    by simp
next
  assume a: "lo \<le> k \<and> k \<le> hi \<and> P k \<and> (\<forall>j. lo \<le> j \<and> j < k \<longrightarrow> \<not> P j)"
  let ?i = "nat (k - lo)"
  have i: "?i < length [lo..hi]" using a by simp
  have ki: "[lo..hi] ! ?i = k" using a by (simp add: nth_upto)
  have "\<not> P ([lo..hi] ! j)" if "j < ?i" for j
  proof -
    from that a have "lo + int j \<le> hi" by linarith
    then have "[lo..hi] ! j = lo + int j" by (rule nth_upto)
    moreover from that have "lo \<le> lo + int j" "lo + int j < k" by simp_all
    ultimately show ?thesis using a by simp
  qed
  with i ki a show "find P [lo..hi] = Some k"
    unfolding find_Some_iff by (intro exI [of _ ?i]) simp
qed

lemma double_exponent_iff:
  "double_exponent x = Some k \<longleftrightarrow>
     - 1022 \<le> k \<and> k \<le> 1023 \<and> \<bar>x\<bar> < 2 powi (k + 1) \<and> (k = - 1022 \<or> 2 powi k \<le> \<bar>x\<bar>)"
proof -
  have "(\<forall>j. - 1022 \<le> j \<and> j < k \<longrightarrow> \<not> \<bar>x\<bar> < 2 powi (j + 1)) \<longleftrightarrow>
        (k \<le> - 1022 \<or> 2 powi k \<le> \<bar>x\<bar>)"
  proof
    assume a: "\<forall>j. - 1022 \<le> j \<and> j < k \<longrightarrow> \<not> \<bar>x\<bar> < 2 powi (j + 1)"
    show "k \<le> - 1022 \<or> 2 powi k \<le> \<bar>x\<bar>"
    proof (cases "k \<le> - 1022")
      case True
      then show ?thesis by simp
    next
      case False
      with a [rule_format, of "k - 1"] show ?thesis by (simp add: not_less)
    qed
  next
    assume a: "k \<le> - 1022 \<or> 2 powi k \<le> \<bar>x\<bar>"
    show "\<forall>j. - 1022 \<le> j \<and> j < k \<longrightarrow> \<not> \<bar>x\<bar> < 2 powi (j + 1)"
    proof (intro allI impI)
      fix j assume j: "- 1022 \<le> j \<and> j < k"
      with a have "2 powi k \<le> \<bar>x\<bar>" by auto
      moreover have "(2::real) powi (j + 1) \<le> 2 powi k"
        using j by (intro power_int_increasing) simp_all
      ultimately show "\<not> \<bar>x\<bar> < 2 powi (j + 1)" by linarith
    qed
  qed
  then show ?thesis
    unfolding double_exponent_def find_upto_Some by auto
qed

lemma double_round_eq:
  assumes "- 1022 \<le> k" "k \<le> 1023" "\<bar>x\<bar> < 2 powi (k + 1)" "k = - 1022 \<or> 2 powi k \<le> \<bar>x\<bar>"
    and "r = of_int (round_half_even (x / 2 powi (k - 52))) * 2 powi (k - 52)"
    and "\<bar>r\<bar> < 2 powi 1024"
  shows "double_round x = Some r"
proof -
  have "double_exponent x = Some k" unfolding double_exponent_iff using assms(1-4) by blast
  then show ?thesis unfolding double_round_def Let_def using assms(5,6) by simp
qed

lemma double_round_0: "double_round 0 = Some 0"
  by (rule double_round_eq [of "- 1022"]) (simp_all add: round_half_even_def)

lemma double_round_between_integers:
  assumes "\<bar>x\<bar> < 2 ^ 52"
  shows "\<exists>r. double_round x = Some r \<and> of_int \<lfloor>x\<rfloor> \<le> r \<and> r \<le> of_int \<lceil>x\<rceil>"
proof -
  have "\<bar>x\<bar> < 2 powi (51 + 1)" using assms by simp
  then have "\<exists>k \<in> set [- 1022..1023]. \<bar>x\<bar> < 2 powi (k + 1)"
    unfolding set_upto by (intro bexI [of _ 51]) simp_all
  then have "double_exponent x \<noteq> None"
    unfolding double_exponent_def find_None_iff by blast
  then obtain k where k: "double_exponent x = Some k" by blast
  then have kb: "- 1022 \<le> k" "\<bar>x\<bar> < 2 powi (k + 1)" "k = - 1022 \<or> 2 powi k \<le> \<bar>x\<bar>"
    unfolding double_exponent_iff by blast+
  have k51: "k \<le> 51"
  proof (rule ccontr)
    assume "\<not> k \<le> 51"
    then have k52: "52 \<le> k" by simp
    with kb(3) have "2 powi k \<le> \<bar>x\<bar>" by auto
    moreover have "(2::real) powi 52 \<le> 2 powi k"
      using k52 by (intro power_int_increasing) simp_all
    ultimately show False using assms by simp
  qed
  define m where "m = nat (52 - k)"
  define u :: real where "u = 2 powi (k - 52)"
  have u: "u = 1 / 2 ^ m"
  proof -
    have "k - 52 = - int m" using k51 by (simp add: m_def)
    then show ?thesis unfolding u_def by (simp add: power_int_minus_divide)
  qed
  have up: "0 < u" unfolding u by simp
  have xu: "x / u = x * 2 ^ m" unfolding u by simp
  define q where "q = round_half_even (x / u)"
  have lo: "of_int \<lfloor>x\<rfloor> \<le> of_int q * u"
  proof -
    have "real_of_int (\<lfloor>x\<rfloor> * 2 ^ m) \<le> x * 2 ^ m" by simp
    then have "\<lfloor>x\<rfloor> * 2 ^ m \<le> \<lfloor>x / u\<rfloor>" unfolding xu by (simp only: le_floor_iff)
    also have "\<dots> \<le> q" unfolding q_def using round_half_even_bounds by blast
    finally have "real_of_int (\<lfloor>x\<rfloor> * 2 ^ m) \<le> of_int q" by (simp only: of_int_le_iff)
    then have a: "real_of_int (\<lfloor>x\<rfloor> * 2 ^ m) * u \<le> of_int q * u"
      using up by (simp only: mult_le_cancel_right_pos)
    have e: "real_of_int (\<lfloor>x\<rfloor> * 2 ^ m) * u = of_int \<lfloor>x\<rfloor>" unfolding u by simp
    from a show ?thesis unfolding e .
  qed
  have hi: "of_int q * u \<le> of_int \<lceil>x\<rceil>"
  proof -
    have "x * 2 ^ m \<le> real_of_int (\<lceil>x\<rceil> * 2 ^ m)" by simp
    then have "\<lceil>x / u\<rceil> \<le> \<lceil>x\<rceil> * 2 ^ m" unfolding xu by (simp only: ceiling_le_iff)
    moreover have "q \<le> \<lceil>x / u\<rceil>" unfolding q_def using round_half_even_bounds by blast
    ultimately have "q \<le> \<lceil>x\<rceil> * 2 ^ m" by simp
    then have "real_of_int q \<le> of_int (\<lceil>x\<rceil> * 2 ^ m)" by (simp only: of_int_le_iff)
    then have a: "real_of_int q * u \<le> real_of_int (\<lceil>x\<rceil> * 2 ^ m) * u"
      using up by (simp only: mult_le_cancel_right_pos)
    have e: "real_of_int (\<lceil>x\<rceil> * 2 ^ m) * u = of_int \<lceil>x\<rceil>" unfolding u by simp
    from a show ?thesis unfolding e .
  qed
  have "\<bar>real_of_int q * u\<bar> \<le> 2 ^ 52"
  proof -
    have "- (2 ^ 52) \<le> x" "x \<le> 2 ^ 52" using assms by simp_all
    then have "- (2 ^ 52) \<le> \<lfloor>x\<rfloor>" "\<lceil>x\<rceil> \<le> 2 ^ 52"
      by (simp_all add: le_floor_iff ceiling_le_iff)
    then have "- (2 ^ 52) \<le> real_of_int \<lfloor>x\<rfloor>" "real_of_int \<lceil>x\<rceil> \<le> 2 ^ 52"
      by (metis of_int_le_iff of_int_minus of_int_numeral of_int_power)+
    with lo hi show ?thesis by linarith
  qed
  then have "\<bar>real_of_int q * u\<bar> < 2 powi 1024" by simp
  then have "double_round x = Some (of_int q * u)"
    unfolding double_round_def k Let_def q_def u_def by simp
  with lo hi show ?thesis by blast
qed

text \<open>Integers below \<open>2 ^ 52\<close> in magnitude are doubles; rounding is monotone enough to
  keep a large product large, and truncation stays between the neighbouring integers.\<close>

lemma double_round_int:
  assumes "\<bar>real_of_int n\<bar> < 2 ^ 52"
  shows "double_round (of_int n) = Some (of_int n)"
  using double_round_between_integers [OF assms] by auto

lemma double_round_large:
  assumes x: "2 ^ 52 \<le> \<bar>x\<bar>" and r: "double_round x = Some r"
  shows "2 ^ 52 \<le> \<bar>r\<bar>"
proof -
  from r obtain k where k: "double_exponent x = Some k"
    unfolding double_round_def by (auto split: option.splits)
  then have kb: "\<bar>x\<bar> < 2 powi (k + 1)" unfolding double_exponent_iff by blast
  have k52: "52 \<le> k"
  proof (rule ccontr)
    assume "\<not> 52 \<le> k"
    then have "k + 1 \<le> 52" by simp
    then have "(2::real) powi (k + 1) \<le> 2 powi 52"
      by (intro power_int_increasing) simp_all
    with kb x show False by simp
  qed
  define m where "m = nat (k - 52)"
  define u :: real where "u = 2 powi (k - 52)"
  have u: "u = 2 ^ m"
  proof -
    have "k - 52 = int m" using k52 by (simp add: m_def)
    then show ?thesis unfolding u_def by simp
  qed
  have u1: "1 \<le> u" unfolding u by simp
  define q where "q = round_half_even (x / u)"
  from r have re: "r = of_int q * u"
    unfolding double_round_def k Let_def q_def u_def by (simp split: if_splits)
  have xu: "2 ^ 52 \<le> \<bar>x / u\<bar>"
  proof -
    from k k52 have "2 powi k \<le> \<bar>x\<bar>" unfolding double_exponent_iff by auto
    moreover have "(2::real) powi k = 2 ^ 52 * u"
    proof -
      have "(2::real) powi k = 2 powi (52 + (k - 52))" by simp
      also have "\<dots> = 2 powi 52 * 2 powi (k - 52)" by (subst power_int_add) simp_all
      finally show ?thesis unfolding u_def by simp
    qed
    ultimately have "2 ^ 52 * u \<le> \<bar>x\<bar>" by simp
    with u1 have "2 ^ 52 \<le> \<bar>x\<bar> / u" by (simp add: pos_le_divide_eq)
    with u1 show ?thesis by simp
  qed
  have q52: "2 ^ 52 \<le> \<bar>real_of_int q\<bar>"
  proof (cases "0 \<le> x / u")
    case True
    with xu have "real_of_int (2 ^ 52) \<le> x / u" by simp
    then have "2 ^ 52 \<le> \<lfloor>x / u\<rfloor>" by (simp only: le_floor_iff)
    with round_half_even_bounds [of "x / u"] have "2 ^ 52 \<le> q" unfolding q_def by linarith
    then have "real_of_int (2 ^ 52) \<le> real_of_int q" by (simp only: of_int_le_iff)
    then show ?thesis by simp
  next
    case False
    with xu have "x / u \<le> real_of_int (- (2 ^ 52))" by simp
    then have "\<lceil>x / u\<rceil> \<le> - (2 ^ 52)" by (simp only: ceiling_le_iff)
    with round_half_even_bounds [of "x / u"] have "q \<le> - (2 ^ 52)" unfolding q_def by linarith
    then have "real_of_int q \<le> real_of_int (- (2 ^ 52))" by (simp only: of_int_le_iff)
    then show ?thesis by simp
  qed
  have "\<bar>r\<bar> = \<bar>real_of_int q\<bar> * u" unfolding re using u1 by (simp add: abs_mult)
  moreover have "\<bar>real_of_int q\<bar> * 1 \<le> \<bar>real_of_int q\<bar> * u"
    using u1 by (intro mult_left_mono) simp_all
  ultimately show ?thesis using q52 by simp
qed

lemma py_int_between:
  assumes "real_of_int a \<le> r" "r \<le> real_of_int b"
  shows "a \<le> py_int r \<and> py_int r \<le> b"
proof -
  from assms have "a \<le> \<lfloor>r\<rfloor>" "\<lceil>r\<rceil> \<le> b" by (simp_all add: le_floor_iff ceiling_le_iff)
  moreover have "\<lfloor>r\<rfloor> \<le> \<lceil>r\<rceil>" by (rule floor_le_ceiling)
  ultimately have "a \<le> \<lfloor>r\<rfloor>" "\<lfloor>r\<rfloor> \<le> b" "a \<le> \<lceil>r\<rceil>" "\<lceil>r\<rceil> \<le> b" by linarith+
  then show ?thesis unfolding py_int_def by simp
qed

lemma float_product_truncated:
  assumes "\<bar>x * c\<bar> < 2 ^ 52"
  shows "\<exists>r. float_mul x c = Some r \<and> py_int_float (float_mul x c) = Inr (py_int r)
           \<and> \<lfloor>x * c\<rfloor> \<le> py_int r \<and> py_int r \<le> \<lceil>x * c\<rceil>
           \<and> \<bar>real_of_int (py_int r) - x * c\<bar> < 1"
proof -
  from double_round_between_integers [OF assms] obtain r where
    r: "double_round (x * c) = Some r" "of_int \<lfloor>x * c\<rfloor> \<le> r" "r \<le> of_int \<lceil>x * c\<rceil>"
    by blast
  from py_int_between [OF r(2,3)] have b: "\<lfloor>x * c\<rfloor> \<le> py_int r" "py_int r \<le> \<lceil>x * c\<rceil>"
    by simp_all
  then have "real_of_int \<lfloor>x * c\<rfloor> \<le> real_of_int (py_int r)"
    "real_of_int (py_int r) \<le> real_of_int \<lceil>x * c\<rceil>"
    by (simp_all only: of_int_le_iff)
  then have "\<bar>real_of_int (py_int r) - x * c\<bar> < 1" by linarith
  with r(1) b show ?thesis
    unfolding float_mul_def py_int_float_def by simp
qed

text \<open>The doubles and float products used in the examples below.\<close>

lemma double_round_625_1024: "double_round (625 / 1024) = Some (625 / 1024)"
  by (rule double_round_eq [of "- 1"]) (simp_all add: round_half_even_def)

lemma float_product_0007: "double_round (6456360425798343 / 9223372036854775808 * 10000) = Some 7"
  by (rule double_round_eq [of 2]) (simp_all add: round_half_even_def)

lemma float_product_32769: "double_round (- 7378922809465189 / 2251799813685248 * 10000) = Some (- 32769)"
  by (rule double_round_eq [of 15]) (simp_all add: round_half_even_def)

lemma double_round_40000: "double_round 40000 = Some 40000"
  using double_round_int [of 40000] by simp

lemma double_round_15000: "double_round 15000 = Some 15000"
  using double_round_int [of 15000] by simp

lemma double_round_minus_2500: "double_round (- 2500) = Some (- 2500)"
  using double_round_int [of "- 2500"] by simp

lemma double_0007: "double_round (7 / 10000) = Some (6456360425798343 / 9223372036854775808)"
  by (rule double_round_eq [of "- 11"]) (simp_all add: round_half_even_def)

lemma double_32769: "double_round (- 32769 / 10000) = Some (- 7378922809465189 / 2251799813685248)"
  by (rule double_round_eq [of 1]) (simp_all add: round_half_even_def)

text \<open>The signed 16-bit wrap of the yaw.\<close>

lemma wrap16_range:
  fixes t :: int
  assumes "0 \<le> t" "t < 65536"
  shows "- 32768 \<le> (if t > 32767 then t - 65536 else t) \<and>
         (if t > 32767 then t - 65536 else t) \<le> 32767"
  using assms by auto

lemma wrap16_cong:
  fixes t :: int
  shows "((if t mod 65536 > 32767 then t mod 65536 - 65536 else t mod 65536) - t) mod 65536 = 0"
proof -
  have "(t mod 65536 - t) mod 65536 = 0"
    by (simp add: mod_diff_left_eq)
  moreover have "(t mod 65536 - 65536 - t) mod 65536 = (t mod 65536 - t) mod 65536"
    by (metis diff_right_commute minus_mod_self2)
  ultimately show ?thesis by simp
qed

lemma wrap16_small:
  fixes t :: int
  assumes "- 32768 \<le> t" "t < 32768"
  shows "(if t mod 65536 > 32767 then t mod 65536 - 65536 else t mod 65536) = t"
proof (cases "0 \<le> t")
  case True
  with assms have "t mod 65536 = t" by simp
  with assms show ?thesis by simp
next
  case False
  with assms have a: "(t + 65536) mod 65536 = t + 65536"
    by (intro mod_pos_pos_trivial) auto
  have "t mod 65536 = (t + 65536) mod 65536" by simp
  also note a
  finally have "t mod 65536 = t + 65536" .
  with assms False show ?thesis by simp
qed

lemma quantize_yaw_Inr:
  "quantize_yaw y = Inr qy \<longleftrightarrow>
     (\<exists>t. py_int_float (float_mul y 10000) = Inr t
        \<and> (if t mod 65536 > 32767 then t mod 65536 - 65536 else t mod 65536) = qy)"
  unfolding quantize_yaw_def Let_def bind_r_Inr sum.inject ..

lemma quantize_yaw_wraps:
  assumes "quantize_yaw y = Inr qy"
  shows "\<exists>t. py_int_float (float_mul y 10000) = Inr t
           \<and> - 32768 \<le> qy \<and> qy \<le> 32767 \<and> (qy - t) mod 65536 = 0"
proof (cases "py_int_float (float_mul y 10000)")
  case (Inl e)
  with assms show ?thesis by (simp add: quantize_yaw_def bind_r_def)
next
  case (Inr t)
  from assms have q: "(if t mod 65536 > 32767 then t mod 65536 - 65536 else t mod 65536) = qy"
    unfolding quantize_yaw_def Let_def Inr bind_r_def sum.case sum.inject .
  have "0 \<le> t mod 65536" "t mod 65536 < 65536" by simp_all
  note a = wrap16_range [OF this] and c = wrap16_cong [of t]
  have 1: "- 32768 \<le> qy" using a unfolding q by (rule conjunct1)
  have 2: "qy \<le> 32767" using a unfolding q by (rule conjunct2)
  have 3: "(qy - t) mod 65536 = 0" using c unfolding q .
  show ?thesis unfolding Inr by (rule exI [of _ t]) (simp only: 1 2 3 simp_thms)
qed

lemma quantize_yaw_small:
  assumes "\<bar>y\<bar> \<le> 32767 / 10000"
  shows "\<exists>qy. quantize_yaw y = Inr qy \<and> \<bar>real_of_int qy / 10000 - y\<bar> < 1 / 10000"
proof -
  from assms have x: "\<bar>y * 10000\<bar> \<le> 32767" by (simp add: abs_mult)
  then have "\<bar>y * 10000\<bar> < 2 ^ 52" by simp
  from float_product_truncated [OF this] obtain r where
    r: "py_int_float (float_mul y 10000) = Inr (py_int r)"
    and b: "\<lfloor>y * 10000\<rfloor> \<le> py_int r" "py_int r \<le> \<lceil>y * 10000\<rceil>"
    and e: "\<bar>real_of_int (py_int r) - y * 10000\<bar> < 1"
    by blast
  have "- 32767 \<le> \<lfloor>y * 10000\<rfloor>" unfolding le_floor_iff using x by simp
  moreover have "\<lceil>y * 10000\<rceil> \<le> 32767" unfolding ceiling_le_iff using x by simp
  ultimately have s: "- 32768 \<le> py_int r" "py_int r < 32768" using b by linarith+
  have q: "quantize_yaw y = Inr (py_int r)"
    unfolding quantize_yaw_def Let_def r bind_r_def sum.case wrap16_small [OF s] ..
  have "real_of_int (py_int r) / 10000 - y = (real_of_int (py_int r) - y * 10000) / 10000"
    by (simp add: field_simps)
  then have "\<bar>real_of_int (py_int r) / 10000 - y\<bar> = \<bar>real_of_int (py_int r) - y * 10000\<bar> / 10000"
    by (simp only: abs_divide abs_numeral)
  with e have "\<bar>real_of_int (py_int r) / 10000 - y\<bar> < 1 / 10000" by simp
  with q show ?thesis by blast
qed

lemma quantize_pitch_in_range:
  assumes q: "quantize_pitch p = Inr qp" and lo: "- 32768 \<le> qp" and hi: "qp \<le> 32767"
  shows "\<bar>real_of_int qp / 10000 - p\<bar> < 1 / 10000"
proof -
  from q obtain r where r: "double_round (p * 10000) = Some r" and qp: "qp = py_int r"
    unfolding quantize_pitch_def py_int_float_def float_mul_def by (auto split: option.splits)
  have rb: "\<bar>r\<bar> < 2 ^ 52"
  proof -
    have "\<bar>real_of_int (py_int r) - r\<bar> < 1" by (rule py_int_error)
    moreover from lo hi have "\<bar>real_of_int (py_int r)\<bar> \<le> 32768" unfolding qp by simp
    ultimately have "\<bar>r\<bar> < 32769" by linarith
    then show ?thesis by simp
  qed
  have "\<bar>p * 10000\<bar> < 2 ^ 52"
  proof (rule ccontr)
    assume "\<not> \<bar>p * 10000\<bar> < 2 ^ 52"
    then have "2 ^ 52 \<le> \<bar>p * 10000\<bar>" by simp
    from double_round_large [OF this r] rb show False by simp
  qed
  from float_product_truncated [OF this] r
  have e: "\<bar>real_of_int (py_int r) - p * 10000\<bar> < 1"
    unfolding float_mul_def by auto
  have "real_of_int (py_int r) / 10000 - p = (real_of_int (py_int r) - p * 10000) / 10000"
    by (simp add: field_simps)
  then have "\<bar>real_of_int (py_int r) / 10000 - p\<bar> = \<bar>real_of_int (py_int r) - p * 10000\<bar> / 10000"
    by (simp only: abs_divide abs_numeral)
  with e show ?thesis unfolding qp by simp
qed

text \<open>The fields of a packed input packet.\<close>

lemma struct_pack_error: "struct_pack fs = Inl e \<Longrightarrow> e = StructError"
proof (induction fs)
  case Nil
  then show ?case by simp
next
  case (Cons a fs)
  obtain f v where a: "a = (f, v)" by (cases a)
  from Cons show ?case
    unfolding a by (auto simp: bind_r_def pack_field_def split: sum.splits if_splits)
qed

lemma struct_pack_Cons_Inr:
  "struct_pack ((f, v) # rest) = Inr bs \<longleftrightarrow>
     fmt_in_range f v \<and> (\<exists>cs. struct_pack rest = Inr cs \<and> bs = le_bytes (fmt_size f) v @ cs)"
  by (auto simp: bind_r_Inr pack_field_def)

lemma create_input_packet_angles:
  assumes "create_input_packet now b = Inr (pkt, b')"
  shows "\<exists>qy qp. quantize_yaw (yaw b) = Inr qy \<and> quantize_pitch (pitch b) = Inr qp
           \<and> - 32768 \<le> qp \<and> qp \<le> 32767
           \<and> py_slice pkt 10 12 = le_bytes 2 qy \<and> py_slice pkt 12 14 = le_bytes 2 qp"
proof -
  from assms obtain qy qp fs where qy: "quantize_yaw (yaw b) = Inr qy"
    and qp: "quantize_pitch (pitch b) = Inr qp"
    and fs: "struct_pack ((Fmt_B, PACKET_CLIENT_INPUT) # (Fmt_I, sequence b) # (Fmt_I, fs) #
               (Fmt_B, input_flags (inputs b)) # (Fmt_h, qy) # (Fmt_h, qp) #
               [(Fmt_I, target_entity b)]) = Inr pkt"
    unfolding create_input_packet_def Let_def bind_r_Inr
    by (auto simp del: struct_pack.simps)
  from fs obtain a1 a2 a3 a4 a7 where
    pkt: "pkt = a1 @ a2 @ a3 @ a4 @ le_bytes 2 qy @ le_bytes 2 qp @ a7"
    and l: "length a1 = 1" "length a2 = 4" "length a3 = 4" "length a4 = 1"
    and r: "fmt_in_range Fmt_h qp"
    unfolding struct_pack_Cons_Inr by (auto simp: length_le_bytes)
  from r have "- 32768 \<le> qp" "qp \<le> 32767" by (simp_all add: fmt_in_range_def)
  moreover have "py_slice pkt 10 12 = le_bytes 2 qy" "py_slice pkt 12 14 = le_bytes 2 qp"
    unfolding pkt py_slice_def using l by (simp_all add: length_le_bytes)
  ultimately show ?thesis using qy qp by blast
qed

lemma create_input_packet_pitch_out_of_range:
  assumes "quantize_yaw (yaw b) = Inr qy" "quantize_pitch (pitch b) = Inr qp"
    "py_int_float (float_mul now 1000) = Inr t" "qp < - 32768 \<or> 32767 < qp"
  shows "create_input_packet now b = Inl StructError"
proof -
  let ?fs = "[(Fmt_B, PACKET_CLIENT_INPUT), (Fmt_I, sequence b), (Fmt_I, t mod 0xFFFFFFFF),
              (Fmt_B, input_flags (inputs b)), (Fmt_h, qy), (Fmt_h, qp),
              (Fmt_I, target_entity b)]"
  have "\<not> fmt_in_range Fmt_h qp" using assms(4) by (auto simp: fmt_in_range_def)
  then have "\<And>bs. struct_pack ?fs \<noteq> Inr bs"
    unfolding struct_pack_Cons_Inr by simp
  then obtain e where e: "struct_pack ?fs = Inl e" by (cases "struct_pack ?fs") auto
  from struct_pack_error [OF e] e have "struct_pack ?fs = Inl StructError" by simp
  then show ?thesis
    unfolding create_input_packet_def Let_def using assms(1-3)
    by (simp add: bind_r_def del: struct_pack.simps)
qed

section \<open>Packet sizes\<close>

text \<open>
  Claim C1. The claim is that an encoded ConnectionRequest has exactly 13 bytes and an
  encoded ClientInput exactly 20 bytes. The format \<^verbatim>\<open><B I I B h h I\<close> of
  \<^verbatim>\<open>_create_input_packet\<close> packs 1 + 4 + 4 + 1 + 2 + 2 + 4 = 18 bytes, although
  its docstring says "Total: 20 bytes". Evaluated for a fresh bot at time 0: the
  connection request is the 13 bytes below, the input packet is the 18 bytes below.
  (Whenever they encode at all, every connection request has 13 bytes and every input
  packet 18: \<open>create_connection_request_length\<close>, \<open>create_input_packet_length\<close>.)
\<close>

theorem client_input_packet_is_18_bytes:
  "create_connection_request (new_bot 1 ''random'' 60 0) =
     Inr [3, 1, 0, 0, 0, 1, 0, 0, 0, 0, 0, 0, 0]
   \<and> create_input_packet 0 (new_bot 1 ''random'' 60 0) =
     Inr ([1, 0, 0, 0, 0, 0, 0, 0, 0, 0, 0, 0, 0, 0, 0, 0, 0, 0],
          (new_bot 1 ''random'' 60 0)\<lparr>sequence := 1\<rparr>)
   \<and> length [1 :: byte, 0, 0, 0, 0, 0, 0, 0, 0, 0, 0, 0, 0, 0, 0, 0, 0, 0] = 18"
proof -
  have "create_connection_request (new_bot 1 ''random'' 60 0) =
     Inr [3, 1, 0, 0, 0, 1, 0, 0, 0, 0, 0, 0, 0]"
    by (simp add: create_connection_request_def new_bot_def bind_r_def pack_field_def
        fmt_in_range_def le_bytes_def PACKET_CONNECTION_REQUEST_def PROTOCOL_VERSION_def
        upt_conv_Cons)
  moreover have "create_input_packet 0 (new_bot 1 ''random'' 60 0) =
     Inr ([1, 0, 0, 0, 0, 0, 0, 0, 0, 0, 0, 0, 0, 0, 0, 0, 0, 0],
          (new_bot 1 ''random'' 60 0)\<lparr>sequence := 1\<rparr>)"
    by (simp add: create_input_packet_def new_bot_def input_flags_def no_input_def
        quantize_yaw_def quantize_pitch_def py_int_float_def float_mul_def double_round_0
        py_int_def bind_r_def pack_field_def fmt_in_range_def le_bytes_def
        PACKET_CLIENT_INPUT_def upt_conv_Cons)
  ultimately show ?thesis by simp
qed

section \<open>Angle quantization\<close>

text \<open>
  Claim C2, as stated, fails on the code in three places. The encoder truncates
  (\<^verbatim>\<open>int(...)\<close>) where the claim rounds: at yaw \<open>1/16384\<close> (a double, and so is
  the product \<open>0.6103515625\<close>) the code gives 0 and the claim's formula 1. A pitch
  outside the 16-bit range is not truncated to 16 bits: at pitch 4 the quantized value
  is 40000 and \<^verbatim>\<open>struct.pack\<close> raises, so no packet is made. And a yaw of 4
  radians is encoded as -25536, which decodes to -2.5536, more than one unit away
  from 4.
\<close>

theorem yaw_quantization_counterexample:
  "quantize_yaw (1 / 16384) = Inr 0 \<and> spec_yaw_quantized (1 / 16384) = 1
   \<and> quantize_pitch 4 = Inr 40000
   \<and> create_input_packet 0 ((new_bot 1 ''random'' 60 0)\<lparr>pitch := 4\<rparr>) = Inl StructError
   \<and> quantize_yaw 4 = Inr (- 25536)
   \<and> \<not> \<bar>real_of_int (- 25536) / 10000 - 4\<bar> \<le> 1 / 10000"
proof -
  have 1: "quantize_yaw (1 / 16384) = Inr 0"
    by (simp add: quantize_yaw_def float_mul_def py_int_float_def double_round_625_1024 py_int_def bind_r_def)
  have 2: "spec_yaw_quantized (1 / 16384) = 1"
    by (simp add: spec_yaw_quantized_def round_def)
  have 3: "quantize_pitch 4 = Inr 40000"
    by (simp add: quantize_pitch_def float_mul_def py_int_float_def double_round_40000 py_int_def)
  have 4: "create_input_packet 0 ((new_bot 1 ''random'' 60 0)\<lparr>pitch := 4\<rparr>) = Inl StructError"
    by (rule create_input_packet_pitch_out_of_range [of _ 0 40000 _ 0])
       (simp_all add: new_bot_def 3 quantize_yaw_def float_mul_def py_int_float_def
          double_round_0 py_int_def bind_r_def)
  have 5: "quantize_yaw 4 = Inr (- 25536)"
    by (simp add: quantize_yaw_def float_mul_def py_int_float_def double_round_40000 py_int_def bind_r_def)
  have 6: "\<not> \<bar>real_of_int (- 25536) / 10000 - 4\<bar> \<le> 1 / 10000" by simp
  show ?thesis
    by (intro conjI) (rule 1, rule 2, rule 3, rule 4, rule 5, rule 6)
qed

text \<open>
  Claim C2, amended. \<^verbatim>\<open>_create_input_packet\<close> computes
  \<^verbatim>\<open>int(yaw * 10000)\<close>, where the product is the float product (the exact product
  rounded to the nearest double) and \<^verbatim>\<open>int\<close> truncates towards zero, reduces it
  modulo 65536 and reads it as a signed 16-bit value; it computes
  \<^verbatim>\<open>int(pitch * 10000)\<close> with no wrap. In a packet that is returned, bytes 10-11
  hold the quantized yaw and bytes 12-13 the quantized pitch, which then lies in
  \<open>[-32768, 32767]\<close>; when the quantized pitch lies outside (and the other two
  conversions succeed) \<^verbatim>\<open>struct.error\<close> is raised. The quantized yaw lies in
  \<open>[-32768, 32767]\<close> and is congruent modulo 65536 to the truncated float product.
  For a product below \<open>2 ^ 52\<close> in magnitude the truncated float product is the floor
  or the ceiling of the exact product (either can occur: the double nearest 0.0007
  gives 7, where the exact product truncates to 6), so it is less than one unit from
  it. Dividing the quantized yaw by 10000 recovers every yaw of magnitude at most
  3.2767 to within one unit (0.0001), and dividing the quantized pitch by 10000 does so
  whenever the quantized pitch is in the 16-bit range.
\<close>

theorem angle_quantization:
  "(create_input_packet now b = Inr (pkt, b') \<longrightarrow>
      (\<exists>qy qp. quantize_yaw (yaw b) = Inr qy \<and> quantize_pitch (pitch b) = Inr qp
         \<and> - 32768 \<le> qp \<and> qp \<le> 32767
         \<and> py_slice pkt 10 12 = le_bytes 2 qy \<and> py_slice pkt 12 14 = le_bytes 2 qp))
   \<and> (quantize_yaw (yaw b) = Inr wy \<and> quantize_pitch (pitch b) = Inr wp
        \<and> py_int_float (float_mul now 1000) = Inr ts \<and> (wp < - 32768 \<or> 32767 < wp)
       \<longrightarrow> create_input_packet now b = Inl StructError)
   \<and> (quantize_yaw y = Inr vy \<longrightarrow>
        (\<exists>t. py_int_float (float_mul y 10000) = Inr t
           \<and> - 32768 \<le> vy \<and> vy \<le> 32767 \<and> (vy - t) mod 65536 = 0))
   \<and> quantize_pitch p = py_int_float (float_mul p 10000)
   \<and> (\<bar>y * 10000\<bar> < 2 ^ 52 \<longrightarrow>
        (\<exists>r. float_mul y 10000 = Some r
           \<and> py_int_float (float_mul y 10000) = Inr (py_int r)
           \<and> \<lfloor>y * 10000\<rfloor> \<le> py_int r \<and> py_int r \<le> \<lceil>y * 10000\<rceil>
           \<and> \<bar>real_of_int (py_int r) - y * 10000\<bar> < 1))
   \<and> (\<bar>y\<bar> \<le> 32767 / 10000 \<longrightarrow>
        (\<exists>qy. quantize_yaw y = Inr qy \<and> \<bar>real_of_int qy / 10000 - y\<bar> < 1 / 10000))
   \<and> (quantize_pitch p = Inr vp \<and> - 32768 \<le> vp \<and> vp \<le> 32767 \<longrightarrow>
        \<bar>real_of_int vp / 10000 - p\<bar> < 1 / 10000)"
proof (intro conjI impI)
  assume "create_input_packet now b = Inr (pkt, b')"
  then show "\<exists>qy qp. quantize_yaw (yaw b) = Inr qy \<and> quantize_pitch (pitch b) = Inr qp
         \<and> - 32768 \<le> qp \<and> qp \<le> 32767
         \<and> py_slice pkt 10 12 = le_bytes 2 qy \<and> py_slice pkt 12 14 = le_bytes 2 qp"
    by (rule create_input_packet_angles)
next
  assume a: "quantize_yaw (yaw b) = Inr wy \<and> quantize_pitch (pitch b) = Inr wp
        \<and> py_int_float (float_mul now 1000) = Inr ts \<and> (wp < - 32768 \<or> 32767 < wp)"
  show "create_input_packet now b = Inl StructError"
    by (rule create_input_packet_pitch_out_of_range [of b wy wp now ts]) (simp_all only: a)
next
  assume "quantize_yaw y = Inr vy"
  then show "\<exists>t. py_int_float (float_mul y 10000) = Inr t
           \<and> - 32768 \<le> vy \<and> vy \<le> 32767 \<and> (vy - t) mod 65536 = 0"
    by (rule quantize_yaw_wraps)
next
  show "quantize_pitch p = py_int_float (float_mul p 10000)"
    by (rule quantize_pitch_def)
next
  assume "\<bar>y * 10000\<bar> < 2 ^ 52"
  then show "\<exists>r. float_mul y 10000 = Some r
           \<and> py_int_float (float_mul y 10000) = Inr (py_int r)
           \<and> \<lfloor>y * 10000\<rfloor> \<le> py_int r \<and> py_int r \<le> \<lceil>y * 10000\<rceil>
           \<and> \<bar>real_of_int (py_int r) - y * 10000\<bar> < 1"
    by (rule float_product_truncated)
next
  assume "\<bar>y\<bar> \<le> 32767 / 10000"
  then show "\<exists>qy. quantize_yaw y = Inr qy \<and> \<bar>real_of_int qy / 10000 - y\<bar> < 1 / 10000"
    by (rule quantize_yaw_small)
next
  assume a: "quantize_pitch p = Inr vp \<and> - 32768 \<le> vp \<and> vp \<le> 32767"
  show "\<bar>real_of_int vp / 10000 - p\<bar> < 1 / 10000"
    by (rule quantize_pitch_in_range [of p vp]) (simp_all only: a)
qed

theorem angle_quantization_witness:
  "create_input_packet 0 ((new_bot 1 ''random'' 60 0)\<lparr>yaw := 3 / 2, pitch := - 1 / 4\<rparr>) =
     Inr ([1, 0, 0, 0, 0, 0, 0, 0, 0, 0, 0x98, 0x3A, 0x3C, 0xF6, 0, 0, 0, 0],
          (new_bot 1 ''random'' 60 0)\<lparr>yaw := 3 / 2, pitch := - 1 / 4, sequence := 1\<rparr>)
   \<and> quantize_yaw (3 / 2) = Inr 15000 \<and> le_bytes 2 15000 = [0x98, 0x3A]
   \<and> quantize_pitch (- 1 / 4) = Inr (- 2500) \<and> le_bytes 2 (- 2500) = [0x3C, 0xF6]
   \<and> \<bar>real_of_int 15000 / 10000 - 3 / 2\<bar> < 1 / 10000
   \<and> \<bar>real_of_int (- 2500) / 10000 - (- 1 / 4)\<bar> < 1 / 10000
   \<and> double_round (7 / 10000) = Some (6456360425798343 / 9223372036854775808)
   \<and> quantize_yaw (6456360425798343 / 9223372036854775808) = Inr 7
   \<and> py_int (6456360425798343 / 9223372036854775808 * 10000) = 6
   \<and> \<bar>real_of_int 7 / 10000 - 6456360425798343 / 9223372036854775808\<bar> < 1 / 10000
   \<and> double_round (- 32769 / 10000) = Some (- 7378922809465189 / 2251799813685248)
   \<and> quantize_pitch (- 7378922809465189 / 2251799813685248) = Inr (- 32769)
   \<and> create_input_packet 0
        ((new_bot 1 ''random'' 60 0)\<lparr>pitch := - 7378922809465189 / 2251799813685248\<rparr>) =
      Inl StructError"
proof -
  let ?b = "(new_bot 1 ''random'' 60 0)\<lparr>yaw := 3 / 2, pitch := - 1 / 4\<rparr>"
  let ?pkt = "[1 :: byte, 0, 0, 0, 0, 0, 0, 0, 0, 0, 0x98, 0x3A, 0x3C, 0xF6, 0, 0, 0, 0]"
  let ?y = "6456360425798343 / 9223372036854775808 :: real"
  let ?p = "- 7378922809465189 / 2251799813685248 :: real"
  let ?c = "(new_bot 1 ''random'' 60 0)\<lparr>pitch := ?p\<rparr>"
  have qy: "quantize_yaw (3 / 2) = Inr 15000"
    by (simp add: quantize_yaw_def float_mul_def py_int_float_def double_round_15000 py_int_def bind_r_def)
  have qp: "quantize_pitch (- 1 / 4) = Inr (- 2500)"
    by (simp add: quantize_pitch_def float_mul_def py_int_float_def double_round_minus_2500 py_int_def)
  have qp': "quantize_pitch (- (1 / 4)) = Inr (- 2500)"
    using qp by simp
  have q0: "quantize_yaw 0 = Inr 0"
    by (simp add: quantize_yaw_def float_mul_def py_int_float_def double_round_0 py_int_def
        bind_r_def)
  have ts: "py_int_float (float_mul 0 1000) = Inr 0"
    by (simp add: float_mul_def py_int_float_def double_round_0 py_int_def)
  have ly: "le_bytes 2 15000 = [0x98, 0x3A]"
    by (simp add: le_bytes_def upt_conv_Cons)
  have lp: "le_bytes 2 (- 2500) = [0x3C, 0xF6]"
    by (simp add: le_bytes_def upt_conv_Cons)
  have e: "create_input_packet 0 ?b = Inr (?pkt, ?b\<lparr>sequence := 1\<rparr>)"
    by (simp add: create_input_packet_def new_bot_def input_flags_def no_input_def qy qp' ts
        bind_r_def pack_field_def fmt_in_range_def le_bytes_def PACKET_CLIENT_INPUT_def
        upt_conv_Cons)
  have y7: "quantize_yaw ?y = Inr 7"
    by (simp only: quantize_yaw_def float_mul_def float_product_0007)
       (simp add: py_int_float_def py_int_def bind_r_def)
  have t6: "py_int (?y * 10000) = 6"
    by (simp add: py_int_def)
  have p9: "quantize_pitch ?p = Inr (- 32769)"
    by (simp only: quantize_pitch_def float_mul_def float_product_32769) (simp add: py_int_float_def py_int_def)
  note t1 = angle_quantization [where now = 0 and b = ?b and pkt = ?pkt
      and b' = "?b\<lparr>sequence := 1\<rparr>" and y = "3 / 2" and p = "- 1 / 4" and vp = "- 2500"
      and vy = 15000 and wy = 15000 and wp = "- 2500" and ts = 0]
  note t2 = angle_quantization [where now = 0 and b = ?c and pkt = ?pkt
      and b' = ?c and y = ?y and p = ?p and vp = "- 32769"
      and vy = 7 and wy = 0 and wp = "- 32769" and ts = 0]
  have r1: "\<bar>real_of_int 15000 / 10000 - 3 / 2\<bar> < 1 / 10000"
  proof -
    have "\<bar>3 / 2 :: real\<bar> \<le> 32767 / 10000" by simp
    with t1 obtain q where "quantize_yaw (3 / 2) = Inr q"
      "\<bar>real_of_int q / 10000 - 3 / 2\<bar> < 1 / 10000" by blast
    then show ?thesis unfolding qy by simp
  qed
  have r2: "\<bar>real_of_int (- 2500) / 10000 - (- 1 / 4)\<bar> < 1 / 10000"
  proof -
    have "quantize_pitch (- 1 / 4) = Inr (- 2500) \<and> - 32768 \<le> (- 2500 :: int)
        \<and> (- 2500 :: int) \<le> 32767"
      using qp by simp
    with t1 show ?thesis by blast
  qed
  have r3: "\<bar>real_of_int 7 / 10000 - ?y\<bar> < 1 / 10000"
  proof -
    have "\<bar>?y\<bar> \<le> 32767 / 10000" by simp
    with t2 obtain q where "quantize_yaw ?y = Inr q"
      "\<bar>real_of_int q / 10000 - ?y\<bar> < 1 / 10000" by blast
    then show ?thesis unfolding y7 by simp
  qed
  have r4: "create_input_packet 0 ?c = Inl StructError"
  proof -
    have "quantize_yaw (yaw ?c) = Inr 0 \<and> quantize_pitch (pitch ?c) = Inr (- 32769)
        \<and> py_int_float (float_mul 0 1000) = Inr 0
        \<and> ((- 32769 :: int) < - 32768 \<or> 32767 < (- 32769 :: int))"
      using q0 p9 ts by (simp add: new_bot_def)
    with t2 show ?thesis by blast
  qed
  show ?thesis
    by (intro conjI)
       (rule e, rule qy, rule ly, rule qp, rule lp, rule r1, rule r2, rule double_0007,
        rule y7, rule t6, rule r3, rule double_32769, rule p9, rule r4)
qed

section \<open>Decoding: short buffers\<close>

lemma unpack_I_slice:
  "i + 4 \<le> length data \<Longrightarrow> j = i + 4 \<Longrightarrow>
   unpack_I (py_slice data i j) = Inr (le_uint (py_slice data i j))"
  by (simp add: unpack_I_def py_slice_def)

lemma item_in_range: "i < length xs \<Longrightarrow> item xs i = Inr (xs ! i)"
  by (simp add: item_def)

lemma parse_connection_response_short:
  "length data < 18 \<Longrightarrow> parse_connection_response now data b = Inr b"
  by (simp add: parse_connection_response_def)

lemma parse_connection_response_long:
  assumes "18 \<le> length data"
  shows "parse_connection_response now data b =
     Inr (if data ! 1 \<noteq> 0
          then b\<lparr>connection_id := Some (le_uint (py_slice data 2 6)),
                 entity_id := Some (le_uint (py_slice data 6 10)),
                 server_tick := le_uint (py_slice data 10 14),
                 server_time := le_uint (py_slice data 14 18),
                 connected := True, start_time := now\<rparr>
          else b)"
  using assms
  by (simp add: parse_connection_response_def bind_r_def item_in_range unpack_I_slice)

lemma parse_snapshot_short:
  "length data < 17 \<Longrightarrow> parse_snapshot data b = Inr b"
  by (simp add: parse_snapshot_def)

lemma parse_snapshot_long:
  assumes "17 \<le> length data"
  shows "parse_snapshot data b =
     Inr (b\<lparr>snapshot_count := snapshot_count b + 1,
            server_tick := le_uint (py_slice data 1 5),
            server_time := le_uint (py_slice data 9 13),
            last_processed_input := le_uint (py_slice data 13 17)\<rparr>)"
  using assms
  by (simp add: parse_snapshot_def bind_r_def unpack_I_slice)

lemma parse_connection_response_total: "\<exists>b'. parse_connection_response now data b = Inr b'"
  by (cases "length data < 18")
     (simp_all add: parse_connection_response_short parse_connection_response_long)

lemma parse_snapshot_total: "\<exists>b'. parse_snapshot data b = Inr b'"
  by (cases "length data < 17") (simp_all add: parse_snapshot_short parse_snapshot_long)

lemma process_packet_total: "\<exists>b'. process_packet data b = Inr b'"
proof (cases "length data < 1")
  case True
  then show ?thesis by (simp add: process_packet_def)
next
  case False
  then have "item data 0 = Inr (data ! 0)" by (simp add: item_def)
  then show ?thesis
    using parse_snapshot_total [of data b]
    by (auto simp: process_packet_def bind_r_def Let_def)
qed

text \<open>
  Claim C3 speaks of a \<open>ShortBuffer\<close> error that decoding returns. The parsers of the
  code have no error result: on a buffer below the minimum size the length guard
  returns normally, as on every other path. At the two-byte buffer \<open>[4, 1]\<close> and the
  three-byte buffer \<open>[2, 0, 0]\<close> the result is a normal return with the bot as it
  was, not an error.
\<close>

theorem short_buffer_counterexample:
  "parse_connection_response 0 [4, 1] (new_bot 1 ''random'' 60 0) = Inr (new_bot 1 ''random'' 60 0)
   \<and> \<not> isl (parse_connection_response 0 [4, 1] (new_bot 1 ''random'' 60 0))
   \<and> parse_snapshot [2, 0, 0] (new_bot 1 ''random'' 60 0) = Inr (new_bot 1 ''random'' 60 0)
   \<and> \<not> isl (parse_snapshot [2, 0, 0] (new_bot 1 ''random'' 60 0))"
  by (simp add: parse_connection_response_def parse_snapshot_def)

text \<open>
  Claim C3, amended. For every inbound byte sequence shorter than the minimum header
  size of its packet type (18 bytes for a ConnectionResponse, 17 for a ServerSnapshot)
  decoding returns normally, with no error, and leaves the bot exactly as it was: the
  packet is dropped. It never reads out of bounds or raises: for a buffer of any
  length the two parsers and the dispatcher \<^verbatim>\<open>_process_packet\<close> return normally
  (every index and every \<^verbatim>\<open>struct.unpack\<close> of the model can raise, and none does).
\<close>

theorem short_buffer_dropped:
  "(length data < 18 \<longrightarrow> parse_connection_response now data b = Inr b)
   \<and> (length data < 17 \<longrightarrow> parse_snapshot data b = Inr b)
   \<and> (\<exists>b'. parse_connection_response now data b = Inr b')
   \<and> (\<exists>b'. parse_snapshot data b = Inr b')
   \<and> (\<exists>b'. process_packet data b = Inr b')"
  using parse_connection_response_short [of data now b] parse_snapshot_short [of data b]
    parse_connection_response_total [of now data b] parse_snapshot_total [of data b]
    process_packet_total [of data b]
  by blast

theorem short_buffer_dropped_witness:
  "length [2 :: byte, 1, 0, 0, 0, 0, 0, 0, 0, 0, 0, 0, 0, 0, 0, 0] < 17
   \<and> parse_snapshot [2, 1, 0, 0, 0, 0, 0, 0, 0, 0, 0, 0, 0, 0, 0, 0]
         (new_bot 1 ''random'' 60 0) = Inr (new_bot 1 ''random'' 60 0)
   \<and> parse_connection_response 5 [2, 1, 0, 0, 0, 0, 0, 0, 0, 0, 0, 0, 0, 0, 0, 0]
         (new_bot 1 ''random'' 60 0) = Inr (new_bot 1 ''random'' 60 0)"
  using short_buffer_dropped [of "[2, 1, 0, 0, 0, 0, 0, 0, 0, 0, 0, 0, 0, 0, 0, 0]" 5
      "new_bot 1 ''random'' 60 0"]
  by simp

section \<open>The handshake\<close>

lemma wait_for_connection_connected:
  "connected b \<Longrightarrow> wait_for_connection now evs b = (Inr (), b)"
proof (cases evs)
  case Nil
  then show "connected b \<Longrightarrow> ?thesis" by simp
next
  case (Cons e rest)
  then show "connected b \<Longrightarrow> ?thesis" by (cases e) simp_all
qed

lemma response_type_byte: "uint (t :: byte) = PACKET_CONNECTION_RESPONSE \<longleftrightarrow> t = 4"
  using word_uint_eq_iff [of t 4] by (simp add: PACKET_CONNECTION_RESPONSE_def)

lemma wait_datagram_accepted:
  assumes "\<not> connected b" "18 \<le> length d" "d ! 0 = 4" "d ! 1 \<noteq> 0"
  shows "\<exists>b'. wait_for_connection now (Datagram d # rest) b = (Inr (), b') \<and> connected b'"
proof -
  let ?data = "take 1024 d"
  have len: "18 \<le> length ?data" using assms by simp
  have nz: "?data ! 1 \<noteq> 0" "?data ! 0 = 4" using assms by simp_all
  have ne: "?data \<noteq> []" using assms(2) by (cases d) auto
  then have "0 < length ?data" by blast
  then have it: "item ?data 0 = Inr 4" using nz unfolding item_def by simp
  obtain b1 where p: "parse_connection_response now ?data b = Inr b1" and c: "connected b1"
    using parse_connection_response_long [OF len, of now b] nz by simp
  let ?b2 = "b1\<lparr>packets_received := packets_received b1 + 1,
                  bytes_received := bytes_received b1 + int (length ?data)\<rparr>"
  have "connected ?b2" using c by simp
  then have "wait_for_connection now rest ?b2 = (Inr (), ?b2)"
    by (rule wait_for_connection_connected)
  then have "wait_for_connection now (Datagram d # rest) b = (Inr (), ?b2)"
    using assms(1) assms(2) ne it p
    by (simp add: PACKET_CONNECTION_RESPONSE_def Let_def del: One_nat_def)
  with \<open>connected ?b2\<close> show ?thesis by blast
qed

lemma wait_datagram_ignored:
  assumes "\<not> connected b" "\<not> (18 \<le> length d \<and> d ! 0 = 4 \<and> d ! 1 \<noteq> 0)"
  shows "\<exists>b'. wait_for_connection now (Datagram d # rest) b = wait_for_connection now rest b'
           \<and> \<not> connected b'"
proof (cases "d = []")
  case True
  with assms(1) show ?thesis by auto
next
  case False
  let ?data = "take 1024 d"
  have ne: "?data \<noteq> []" "1 \<le> length ?data" using False by (auto simp: Suc_le_eq)
  have it: "item ?data 0 = Inr (d ! 0)" using False by (simp add: item_def)
  have "\<exists>b1. (if uint (d ! 0) = PACKET_CONNECTION_RESPONSE
            then parse_connection_response now ?data b else Inr b) = Inr b1 \<and> \<not> connected b1"
  proof (cases "d ! 0 = 4")
    case t: True
    show ?thesis
    proof (cases "18 \<le> length d")
      case True
      then have len: "18 \<le> length ?data" by simp
      from True t assms(2) have "?data ! 1 = 0" by simp
      with parse_connection_response_long [OF len, of now b] assms(1) t show ?thesis
        by (simp add: response_type_byte)
    next
      case False
      then have "length ?data < 18" by simp
      from parse_connection_response_short [OF this, of now b] assms(1) t show ?thesis
        by (simp add: response_type_byte)
    qed
  next
    case False
    with assms(1) show ?thesis by (simp add: response_type_byte)
  qed
  then obtain b1 where p: "(if uint (d ! 0) = PACKET_CONNECTION_RESPONSE
            then parse_connection_response now ?data b else Inr b) = Inr b1" and c: "\<not> connected b1"
    by blast
  let ?b2 = "b1\<lparr>packets_received := packets_received b1 + 1,
                  bytes_received := bytes_received b1 + int (length ?data)\<rparr>"
  have "wait_for_connection now (Datagram d # rest) b = wait_for_connection now rest ?b2"
    using assms(1) ne it p by (simp add: Let_def del: One_nat_def)
  moreover have "\<not> connected ?b2" using c by simp
  ultimately show ?thesis by blast
qed

lemma wait_for_connection_iff:
  "\<not> connected b \<Longrightarrow>
   (fst (wait_for_connection now evs b) = Inr ()
      \<longleftrightarrow> (\<exists>d. Datagram d \<in> set (takeWhile (\<lambda>e. e \<noteq> RecvError) evs)
               \<and> 18 \<le> length d \<and> d ! 0 = 4 \<and> d ! 1 \<noteq> 0))
   \<and> (connected (snd (wait_for_connection now evs b)) \<longleftrightarrow> fst (wait_for_connection now evs b) = Inr ())"
proof (induction evs arbitrary: b)
  case Nil
  then show ?case by simp
next
  case (Cons e evs)
  show ?case
  proof (cases e)
    case WouldBlock
    with Cons show ?thesis by simp
  next
    case RecvError
    with Cons.prems show ?thesis by simp
  next
    case (Datagram d)
    show ?thesis
    proof (cases "18 \<le> length d \<and> d ! 0 = 4 \<and> d ! 1 \<noteq> 0")
      case True
      with wait_datagram_accepted [OF Cons.prems, of d now evs] Datagram
      show ?thesis by auto
    next
      case False
      from wait_datagram_ignored [OF Cons.prems False, of now evs]
      obtain b' where w: "wait_for_connection now (Datagram d # evs) b = wait_for_connection now evs b'"
        and c: "\<not> connected b'" by blast
      from Cons.IH [OF c] False show ?thesis
        unfolding Datagram w by auto
    qed
  qed
qed

lemma create_connection_request_ok:
  assumes "0 \<le> bot_id b" "bot_id b < 2 ^ 64"
  shows "\<exists>pkt. create_connection_request b = Inr pkt"
  using assms
  by (simp add: create_connection_request_def bind_r_def pack_field_def fmt_in_range_def
      PACKET_CONNECTION_REQUEST_def PROTOCOL_VERSION_def)

lemma connect_result_connected:
  assumes "\<not> connected b"
  shows "connected (snd (connect env b)) \<longleftrightarrow> fst (fst (connect env b))"
proof -
  let ?b1 = "b\<lparr>socket_open := True\<rparr>"
  have w: "\<And>b2. \<not> connected b2 \<Longrightarrow>
      connected (snd (case wait_for_connection (clock env) (recv_events env) b2 of
                       (Inl e, b3) \<Rightarrow>
                         if e = TimeoutError then ((False, LogTimeout), b3)
                         else ((False, LogFailed), b3)
                     | (Inr u, b3) \<Rightarrow>
                         if connected b3 then ((True, LogConnected), b3)
                         else ((False, LogRejected), b3)))
      \<longleftrightarrow> fst (fst (case wait_for_connection (clock env) (recv_events env) b2 of
                       (Inl e, b3) \<Rightarrow>
                         if e = TimeoutError then ((False, LogTimeout), b3)
                         else ((False, LogFailed), b3)
                     | (Inr u, b3) \<Rightarrow>
                         if connected b3 then ((True, LogConnected), b3)
                         else ((False, LogRejected), b3)))"
  proof -
    fix b2 :: game_bot assume "\<not> connected b2"
    from wait_for_connection_iff [OF this, of "clock env" "recv_events env"]
    show "?thesis b2"
      by (cases "wait_for_connection (clock env) (recv_events env) b2")
         (auto split: sum.splits)
  qed
  have s: "\<And>ok pkt b2. send_packet ok pkt ?b1 = Inr b2 \<Longrightarrow> \<not> connected b2"
    using assms by (auto simp: send_packet_def split: if_splits)
  show ?thesis
    using assms w s
    unfolding connect_def Let_def
    by (auto split: sum.splits simp del: split_paired_All)
qed

lemma connect_reaches_wait:
  assumes "\<not> connected b" "sock env = SockOk" "send_ok env" "0 \<le> bot_id b" "bot_id b < 2 ^ 64"
  shows "\<exists>b2. \<not> connected b2 \<and>
     connected (snd (connect env b)) =
       connected (snd (wait_for_connection (clock env) (recv_events env) b2)) \<and>
     (connected (snd (connect env b)) \<longrightarrow>
        fst (wait_for_connection (clock env) (recv_events env) b2) = Inr ())\<and>
     (fst (wait_for_connection (clock env) (recv_events env) b2) = Inr () \<longrightarrow>
        connected (snd (connect env b)))"
proof -
  let ?b1 = "b\<lparr>socket_open := True\<rparr>"
  from create_connection_request_ok [of ?b1] assms obtain pkt where
    p: "create_connection_request ?b1 = Inr pkt" by auto
  let ?b2 = "?b1\<lparr>packets_sent := packets_sent ?b1 + 1,
                   bytes_sent := bytes_sent ?b1 + int (length pkt)\<rparr>"
  have s: "send_packet (send_ok env) pkt ?b1 = Inr ?b2"
    using assms by (simp add: send_packet_def)
  have c: "\<not> connected ?b2" using assms by simp
  obtain r b3 where w: "wait_for_connection (clock env) (recv_events env) ?b2 = (r, b3)"
    by (cases "wait_for_connection (clock env) (recv_events env) ?b2")
  from wait_for_connection_iff [OF c, of "clock env" "recv_events env"] w
  have i: "connected b3 \<longleftrightarrow> r = Inr ()" by simp
  have "connect env b =
      (case (r, b3) of
         (Inl e, b3) \<Rightarrow>
           if e = TimeoutError then ((False, LogTimeout), b3) else ((False, LogFailed), b3)
       | (Inr u, b3) \<Rightarrow>
           if connected b3 then ((True, LogConnected), b3) else ((False, LogRejected), b3))"
    using assms p s w unfolding connect_def Let_def by simp
  then have "snd (connect env b) = b3"
    by (cases r) (simp_all split: if_splits)
  with w i c show ?thesis
    by (intro exI [of _ ?b2]) simp
qed

lemma wait_for_connection_returns_connected:
  "fst (wait_for_connection now evs b) = Inr () \<Longrightarrow> connected (snd (wait_for_connection now evs b))"
proof (cases "connected b")
  case True
  then show ?thesis by (simp add: wait_for_connection_connected)
next
  case False
  from wait_for_connection_iff [OF this, of now evs]
  show "fst (wait_for_connection now evs b) = Inr () \<Longrightarrow> ?thesis" by simp
qed

lemma connect_never_logs_rejected: "snd (fst (connect env b)) \<noteq> LogRejected"
proof -
  have "\<And>b2 :: game_bot. snd (fst (case wait_for_connection (clock env) (recv_events env) b2 of
                       (Inl e, b3) \<Rightarrow>
                         if e = TimeoutError then ((False, LogTimeout), b3)
                         else ((False, LogFailed), b3)
                     | (Inr u, b3) \<Rightarrow>
                         if connected b3 then ((True, LogConnected), b3)
                         else ((False, LogRejected), b3))) \<noteq> LogRejected"
  proof -
    fix b2 :: game_bot
    from wait_for_connection_returns_connected [of "clock env" "recv_events env" b2]
    show "?thesis b2"
      by (cases "wait_for_connection (clock env) (recv_events env) b2")
         (auto split: sum.splits)
  qed
  then show ?thesis
    unfolding connect_def Let_def
    by (auto split: sum.splits simp del: split_paired_All)
qed

text \<open>
  Claim C4 says that the bot becomes Connected if and only if the success byte of the
  response equals 1. The parser tests \<^verbatim>\<open>data[1] != 0\<close>: a response whose success
  byte is 2 connects the bot, and \<^verbatim>\<open>connect\<close> returns \<^verbatim>\<open>True\<close>. (A response
  whose success byte is 0 leaves the bot unconnected, as the claim says, but the wait
  then goes on until the timeout: \<^verbatim>\<open>connect\<close> prints "Connection timeout", and its
  "Connection rejected" branch is never taken, \<open>connect_never_logs_rejected\<close>.)
\<close>

theorem connect_success_byte_counterexample:
  "[4 :: byte, 2, 7, 0, 0, 0, 9, 0, 0, 0, 100, 0, 0, 0, 136, 19, 0, 0] ! 1 \<noteq> 1
   \<and> connect \<lparr>sock = SockOk, send_ok = True,
         recv_events = [Datagram [4, 2, 7, 0, 0, 0, 9, 0, 0, 0, 100, 0, 0, 0, 136, 19, 0, 0]],
         clock = 1000\<rparr> (new_bot 1 ''random'' 60 0) =
      ((True, LogConnected),
       (new_bot 1 ''random'' 60 0)\<lparr>socket_open := True, connected := True,
          entity_id := Some 9, connection_id := Some 7, server_tick := 100,
          server_time := 5000, start_time := 1000, packets_sent := 1,
          packets_received := 1, bytes_sent := 13, bytes_received := 18\<rparr>)
   \<and> connect \<lparr>sock = SockOk, send_ok = True,
         recv_events = [Datagram [4, 0, 7, 0, 0, 0, 9, 0, 0, 0, 100, 0, 0, 0, 136, 19, 0, 0]],
         clock = 1000\<rparr> (new_bot 1 ''random'' 60 0) =
      ((False, LogTimeout),
       (new_bot 1 ''random'' 60 0)\<lparr>socket_open := True, packets_sent := 1,
          packets_received := 1, bytes_sent := 13, bytes_received := 18\<rparr>)"
  by (simp add: connect_def new_bot_def create_connection_request_def bind_r_def pack_field_def
      fmt_in_range_def le_bytes_def send_packet_def item_def parse_connection_response_def
      unpack_I_def py_slice_def PACKET_CONNECTION_RESPONSE_def PACKET_CONNECTION_REQUEST_def
      PROTOCOL_VERSION_def Let_def)

text \<open>
  Claim C4, amended. Let a bot that is not connected call \<^verbatim>\<open>connect\<close>, with the
  socket set up, the request sent and a bot id that fits the request. Then the bot is
  Connected afterwards if and only if, before the timeout and before a receive fails,
  it received a datagram of at least 18 bytes whose type byte is 4 (ConnectionResponse)
  and whose success byte is not 0; and \<^verbatim>\<open>connect\<close> returns \<^verbatim>\<open>True\<close> exactly
  when the bot is Connected afterwards. In particular a response whose success byte is
  0 leaves the bot not connected.
\<close>

theorem connect_iff_nonzero_success_byte:
  assumes "\<not> connected b" "sock env = SockOk" "send_ok env" "0 \<le> bot_id b" "bot_id b < 2 ^ 64"
  shows "(connected (snd (connect env b)) \<longleftrightarrow>
           (\<exists>d. Datagram d \<in> set (takeWhile (\<lambda>e. e \<noteq> RecvError) (recv_events env))
                \<and> 18 \<le> length d \<and> d ! 0 = 4 \<and> d ! 1 \<noteq> 0))
       \<and> (fst (fst (connect env b)) \<longleftrightarrow> connected (snd (connect env b)))"
proof -
  from connect_reaches_wait [OF assms] obtain b2 where
    c: "\<not> connected b2" and
    e: "connected (snd (connect env b)) =
       connected (snd (wait_for_connection (clock env) (recv_events env) b2))"
    by blast
  from wait_for_connection_iff [OF c, of "clock env" "recv_events env"] e
  have "connected (snd (connect env b)) \<longleftrightarrow>
           (\<exists>d. Datagram d \<in> set (takeWhile (\<lambda>e. e \<noteq> RecvError) (recv_events env))
                \<and> 18 \<le> length d \<and> d ! 0 = 4 \<and> d ! 1 \<noteq> 0)"
    by simp
  with connect_result_connected [OF assms(1), of env] show ?thesis by simp
qed

theorem connect_iff_nonzero_success_byte_witness:
  "\<not> connected (new_bot 1 ''random'' 60 0)
   \<and> 0 \<le> bot_id (new_bot 1 ''random'' 60 0) \<and> bot_id (new_bot 1 ''random'' 60 0) < 2 ^ 64
   \<and> connected (snd (connect \<lparr>sock = SockOk, send_ok = True,
         recv_events = [WouldBlock, Datagram [2, 0, 0], WouldBlock,
            Datagram [4, 1, 7, 0, 0, 0, 9, 0, 0, 0, 100, 0, 0, 0, 136, 19, 0, 0]],
         clock = 1000\<rparr> (new_bot 1 ''random'' 60 0)))
   \<and> fst (fst (connect \<lparr>sock = SockOk, send_ok = True,
         recv_events = [WouldBlock, Datagram [2, 0, 0], WouldBlock,
            Datagram [4, 1, 7, 0, 0, 0, 9, 0, 0, 0, 100, 0, 0, 0, 136, 19, 0, 0]],
         clock = 1000\<rparr> (new_bot 1 ''random'' 60 0)))
   \<and> \<not> connected (snd (connect \<lparr>sock = SockOk, send_ok = True,
         recv_events = [Datagram [4, 0, 7, 0, 0, 0, 9, 0, 0, 0, 100, 0, 0, 0, 136, 19, 0, 0]],
         clock = 1000\<rparr> (new_bot 1 ''random'' 60 0)))"
proof -
  let ?b = "new_bot 1 ''random'' 60 0"
  let ?env1 = "\<lparr>sock = SockOk, send_ok = True,
         recv_events = [WouldBlock, Datagram [2, 0, 0], WouldBlock,
            Datagram [4, 1, 7, 0, 0, 0, 9, 0, 0, 0, 100, 0, 0, 0, 136, 19, 0, 0]],
         clock = 1000\<rparr>"
  let ?env0 = "\<lparr>sock = SockOk, send_ok = True,
         recv_events = [Datagram [4, 0, 7, 0, 0, 0, 9, 0, 0, 0, 100, 0, 0, 0, 136, 19, 0, 0]],
         clock = 1000\<rparr>"
  have h: "\<not> connected ?b" "0 \<le> bot_id ?b" "bot_id ?b < 2 ^ 64"
    by (simp_all add: new_bot_def)
  have e: "sock ?env1 = SockOk" "send_ok ?env1" "sock ?env0 = SockOk" "send_ok ?env0"
    by simp_all
  have "\<exists>d. Datagram d \<in> set (takeWhile (\<lambda>e. e \<noteq> RecvError) (recv_events ?env1))
                \<and> 18 \<le> length d \<and> d ! 0 = 4 \<and> d ! 1 \<noteq> 0"
    by (intro exI [of _ "[4, 1, 7, 0, 0, 0, 9, 0, 0, 0, 100, 0, 0, 0, 136, 19, 0, 0]"]) simp
  with connect_iff_nonzero_success_byte [OF h(1) e(1) e(2) h(2) h(3)]
  have c1: "connected (snd (connect ?env1 ?b))" "fst (fst (connect ?env1 ?b))"
    by blast+
  have "\<not> (\<exists>d. Datagram d \<in> set (takeWhile (\<lambda>e. e \<noteq> RecvError) (recv_events ?env0))
                \<and> 18 \<le> length d \<and> d ! 0 = 4 \<and> d ! 1 \<noteq> 0)"
    by simp
  with connect_iff_nonzero_success_byte [OF h(1) e(3) e(4) h(2) h(3)]
  have c0: "\<not> connected (snd (connect ?env0 ?b))"
    by blast
  from h c1 c0 show ?thesis by blast
qed

section \<open>The session identity\<close>

lemma update_movement_identity:
  "connection_id (fst (update_movement elapsed r b)) = connection_id b
   \<and> entity_id (fst (update_movement elapsed r b)) = entity_id b"
  by (simp add: update_movement_def update_random_movement_def update_circle_movement_def
      update_linear_movement_def uniform_def random_py_def Let_def split: prod.splits)

lemma create_input_packet_identity:
  "create_input_packet now b = Inr (pkt, b') \<Longrightarrow>
   connection_id b' = connection_id b \<and> entity_id b' = entity_id b"
  by (auto simp: create_input_packet_def Let_def bind_r_Inr simp del: struct_pack.simps)

lemma send_packet_identity:
  "send_packet ok pkt b = Inr b' \<Longrightarrow>
   connection_id b' = connection_id b \<and> entity_id b' = entity_id b"
  by (auto simp: send_packet_def split: if_splits)

lemma parse_snapshot_identity:
  "parse_snapshot data b = Inr b' \<Longrightarrow>
   connection_id b' = connection_id b \<and> entity_id b' = entity_id b"
  by (cases "length data < 17") (auto simp: parse_snapshot_short parse_snapshot_long)

lemma process_packet_identity:
  "process_packet data b = Inr b' \<Longrightarrow>
   connection_id b' = connection_id b \<and> entity_id b' = entity_id b"
  by (auto simp: process_packet_def bind_r_Inr Let_def parse_correction_def parse_event_def
      split: if_splits dest: parse_snapshot_identity)

lemma session_step_identity:
  "connection_id (session_step b op) = connection_id b
   \<and> entity_id (session_step b op) = entity_id b"
proof (cases op)
  case (UpdateMovement elapsed r)
  then show ?thesis using update_movement_identity [of elapsed r b] by simp
next
  case (SendInput now ok)
  show ?thesis
  proof (cases "create_input_packet now b")
    case (Inl e)
    with SendInput show ?thesis by simp
  next
    case (Inr res)
    obtain pkt b1 where res: "res = (pkt, b1)" by (cases res)
    note i1 = create_input_packet_identity [OF Inr [unfolded res]]
    show ?thesis
    proof (cases "send_packet ok pkt b1")
      case (Inl e)
      with SendInput Inr res i1 show ?thesis by simp
    next
      case s: (Inr b2)
      from send_packet_identity [OF s] SendInput Inr res i1 s show ?thesis by simp
    qed
  qed
next
  case (Receive d)
  then show ?thesis
    by (auto simp: Let_def split: sum.splits dest!: process_packet_identity)
next
  case Disconnect
  then show ?thesis by (simp add: disconnect_def)
qed

lemma session_identity:
  "connection_id (session b ops) = connection_id b \<and> entity_id (session b ops) = entity_id b"
  unfolding session_def
  by (induction ops arbitrary: b) (simp_all add: session_step_identity)

lemma snapshot_type_byte: "uint (t :: byte) = PACKET_SERVER_SNAPSHOT \<longleftrightarrow> t = 2"
  using word_uint_eq_iff [of t 2] by (simp add: PACKET_SERVER_SNAPSHOT_def)

lemma receive_snapshot_overwrites:
  assumes "17 \<le> length d" "d ! 0 = 2"
  shows "server_tick (session_step b (Receive d)) = le_uint (py_slice (take 2048 d) 1 5)
       \<and> server_time (session_step b (Receive d)) = le_uint (py_slice (take 2048 d) 9 13)"
proof -
  let ?data = "take 2048 d"
  have len: "17 \<le> length ?data" using assms by simp
  have ne: "?data \<noteq> []" using assms(1) by (cases d) auto
  then have "0 < length ?data" by blast
  then have it: "item ?data 0 = Inr 2" using assms(2) unfolding item_def by simp
  have l1: "\<not> length ?data < 1" using len by linarith
  show ?thesis
    using ne it l1 parse_snapshot_long [OF len]
    by (simp add: process_packet_def bind_r_def Let_def PACKET_SERVER_SNAPSHOT_def
        del: One_nat_def length_take)
qed

text \<open>
  Claim C5 says that after the connection response has assigned connectionID, entityID,
  serverTick and serverTimeMs nothing in the session modifies any of the four.
  \<^verbatim>\<open>_parse_snapshot\<close> assigns \<^verbatim>\<open>self.server_tick\<close> and \<^verbatim>\<open>self.server_time\<close>
  from every snapshot header: after a handshake that set the tick to 100 and the time
  to 5000, a snapshot with tick 101 and time 5050 leaves the bot with 101 and 5050.
\<close>

theorem session_identity_counterexample:
  "server_tick (snd (connect \<lparr>sock = SockOk, send_ok = True,
         recv_events = [Datagram [4, 1, 7, 0, 0, 0, 9, 0, 0, 0, 100, 0, 0, 0, 136, 19, 0, 0]],
         clock = 1000\<rparr> (new_bot 1 ''random'' 60 0))) = 100
   \<and> server_time (snd (connect \<lparr>sock = SockOk, send_ok = True,
         recv_events = [Datagram [4, 1, 7, 0, 0, 0, 9, 0, 0, 0, 100, 0, 0, 0, 136, 19, 0, 0]],
         clock = 1000\<rparr> (new_bot 1 ''random'' 60 0))) = 5000
   \<and> server_tick (session_step (snd (connect \<lparr>sock = SockOk, send_ok = True,
         recv_events = [Datagram [4, 1, 7, 0, 0, 0, 9, 0, 0, 0, 100, 0, 0, 0, 136, 19, 0, 0]],
         clock = 1000\<rparr> (new_bot 1 ''random'' 60 0)))
        (Receive [2, 101, 0, 0, 0, 100, 0, 0, 0, 186, 19, 0, 0, 3, 0, 0, 0])) = 101
   \<and> server_time (session_step (snd (connect \<lparr>sock = SockOk, send_ok = True,
         recv_events = [Datagram [4, 1, 7, 0, 0, 0, 9, 0, 0, 0, 100, 0, 0, 0, 136, 19, 0, 0]],
         clock = 1000\<rparr> (new_bot 1 ''random'' 60 0)))
        (Receive [2, 101, 0, 0, 0, 100, 0, 0, 0, 186, 19, 0, 0, 3, 0, 0, 0])) = 5050"
proof -
  have c: "connect \<lparr>sock = SockOk, send_ok = True,
         recv_events = [Datagram [4, 1, 7, 0, 0, 0, 9, 0, 0, 0, 100, 0, 0, 0, 136, 19, 0, 0]],
         clock = 1000\<rparr> (new_bot 1 ''random'' 60 0) =
      ((True, LogConnected),
       (new_bot 1 ''random'' 60 0)\<lparr>socket_open := True, connected := True,
          entity_id := Some 9, connection_id := Some 7, server_tick := 100,
          server_time := 5000, start_time := 1000, packets_sent := 1,
          packets_received := 1, bytes_sent := 13, bytes_received := 18\<rparr>)"
    by (simp add: connect_def new_bot_def create_connection_request_def bind_r_def
        pack_field_def fmt_in_range_def le_bytes_def send_packet_def item_def
        parse_connection_response_def unpack_I_def py_slice_def
        PACKET_CONNECTION_RESPONSE_def PACKET_CONNECTION_REQUEST_def
        PROTOCOL_VERSION_def Let_def)
  show ?thesis
    unfolding c
    by (simp add: new_bot_def process_packet_def parse_snapshot_def item_def bind_r_def
        unpack_I_def py_slice_def PACKET_SERVER_SNAPSHOT_def Let_def)
qed

text \<open>
  Claim C5, amended. Whatever the session does after the handshake -- any sequence of
  movement updates, input packets built and sent, datagrams received and processed
  (snapshots, corrections, events, anything else) and disconnects -- connectionID and
  entityID stay as they are. serverTick and serverTimeMs do not: every received
  ServerSnapshot of at least 17 bytes overwrites them with the tick and the time of its
  header.
\<close>

theorem session_keeps_connection_and_entity_id:
  fixes b :: game_bot
  shows "connection_id (session b ops) = connection_id b
   \<and> entity_id (session b ops) = entity_id b
   \<and> (17 \<le> length d \<and> d ! 0 = 2 \<longrightarrow>
        server_tick (session_step b (Receive d)) = le_uint (py_slice (take 2048 d) 1 5)
        \<and> server_time (session_step b (Receive d)) = le_uint (py_slice (take 2048 d) 9 13))"
  using session_identity [of b ops] receive_snapshot_overwrites [of d b] by blast

theorem session_keeps_connection_and_entity_id_witness:
  "17 \<le> length [2 :: byte, 101, 0, 0, 0, 100, 0, 0, 0, 186, 19, 0, 0, 3, 0, 0, 0]
   \<and> connection_id (session
        ((new_bot 1 ''random'' 60 0)\<lparr>socket_open := True, connected := True,
            entity_id := Some 9, connection_id := Some 7, server_tick := 100,
            server_time := 5000\<rparr>)
        [Receive [2, 101, 0, 0, 0, 100, 0, 0, 0, 186, 19, 0, 0, 3, 0, 0, 0],
         SendInput 1001 True, Receive [6, 0], Disconnect]) = Some 7
   \<and> entity_id (session
        ((new_bot 1 ''random'' 60 0)\<lparr>socket_open := True, connected := True,
            entity_id := Some 9, connection_id := Some 7, server_tick := 100,
            server_time := 5000\<rparr>)
        [Receive [2, 101, 0, 0, 0, 100, 0, 0, 0, 186, 19, 0, 0, 3, 0, 0, 0],
         SendInput 1001 True, Receive [6, 0], Disconnect]) = Some 9
   \<and> server_tick (session_step
        ((new_bot 1 ''random'' 60 0)\<lparr>socket_open := True, connected := True,
            entity_id := Some 9, connection_id := Some 7, server_tick := 100,
            server_time := 5000\<rparr>)
        (Receive [2, 101, 0, 0, 0, 100, 0, 0, 0, 186, 19, 0, 0, 3, 0, 0, 0])) = 101"
proof -
  let ?b = "(new_bot 1 ''random'' 60 0)\<lparr>socket_open := True, connected := True,
            entity_id := Some 9, connection_id := Some 7, server_tick := 100,
            server_time := 5000\<rparr>"
  let ?d = "[2 :: byte, 101, 0, 0, 0, 100, 0, 0, 0, 186, 19, 0, 0, 3, 0, 0, 0]"
  note t = session_keeps_connection_and_entity_id [of ?b
      "[Receive ?d, SendInput 1001 True, Receive [6, 0], Disconnect]" ?d]
  have h: "17 \<le> length ?d \<and> ?d ! 0 = 2" by simp
  have v: "le_uint (py_slice (take 2048 ?d) 1 5) = 101" by (simp add: py_slice_def)
  from t have "connection_id (session ?b
      [Receive ?d, SendInput 1001 True, Receive [6, 0], Disconnect]) = Some 7"
    by simp
  moreover from t have "entity_id (session ?b
      [Receive ?d, SendInput 1001 True, Receive [6, 0], Disconnect]) = Some 9"
    by simp
  moreover from t h have "server_tick (session_step ?b (Receive ?d)) =
      le_uint (py_slice (take 2048 ?d) 1 5)"
    by blast
  ultimately show ?thesis using v by simp
qed

section \<open>The swarm: teardown\<close>

lemma connected_bots_eq:
  "map fst (filter (\<lambda>(b, result). result = Returned True) (zip bots (map cr bots)))
   = filter (\<lambda>i. cr i = Returned True) bots"
  by (induction bots) auto

lemma count_list_map_inj:
  "inj f \<Longrightarrow> count_list (map f xs) (f x) = count_list xs x"
  by (induction xs) (auto dest: injD)

lemma count_list_other:
  "y \<notin> set xs \<Longrightarrow> count_list xs y = 0"
  by (induction xs) auto

lemma count_list_distinct:
  "distinct xs \<Longrightarrow> x \<in> set xs \<Longrightarrow> count_list xs x = 1"
  by (induction xs) (auto simp: count_list_other)

lemma count_list_bots:
  "count_list (map (\<lambda>i. i + 1) [0..<n]) i = (if 1 \<le> i \<and> i \<le> n then 1 else 0)"
proof -
  have d: "distinct (map (\<lambda>i. i + 1) [0..<n])" by (simp add: distinct_map)
  have s: "i \<in> set (map (\<lambda>i. i + 1) [0..<n]) \<longleftrightarrow> 1 \<le> i \<and> i \<le> n"
    by (auto simp: image_iff)
  show ?thesis
  proof (cases "1 \<le> i \<and> i \<le> n")
    case True
    with s d show ?thesis by (simp add: count_list_distinct del: set_map)
  next
    case False
    with s show ?thesis by (simp add: count_list_other)
  qed
qed

lemma swarm_run_disconnects:
  assumes "\<exists>i. 1 \<le> i \<and> i \<le> n \<and> cr i = Returned True"
  shows "disconnect_calls (snd (swarm_run n cr rr)) i = (if 1 \<le> i \<and> i \<le> n then 1 else 0)"
proof -
  let ?bots = "map (\<lambda>i. i + 1) [0..<n]"
  from assms obtain j where j: "1 \<le> j" "j \<le> n" "cr j = Returned True" by blast
  then have "j \<in> set ?bots" by (auto simp: image_iff)
  with j have ne: "filter (\<lambda>i. cr i = Returned True) ?bots \<noteq> []"
    by (metis (mono_tags, lifting) filter_empty_conv)
  have inj: "inj CallDisconnect" by (simp add: inj_def)
  have c1: "count_list (map CallConnect ?bots) (CallDisconnect i) = 0"
    by (rule count_list_other) auto
  have c2: "count_list (map CallRun (filter (\<lambda>i. cr i = Returned True) ?bots)) (CallDisconnect i) = 0"
    by (rule count_list_other) auto
  have c3: "count_list (map CallDisconnect ?bots) (CallDisconnect i) =
      (if 1 \<le> i \<and> i \<le> n then 1 else 0)"
    using count_list_map_inj [OF inj, of ?bots i] count_list_bots [of n i] by simp
  show ?thesis
    using ne c1 c2 c3
    unfolding swarm_run_def disconnect_calls_def Let_def connected_bots_eq
    by (simp del: map_map upt.simps add: count_list_append)
qed

text \<open>
  Claim C6 says that \<^verbatim>\<open>disconnect()\<close> is invoked exactly once on every bot on
  every exit path of the run, the path where no bot connects included. On that path
  \<^verbatim>\<open>BotSwarm.run\<close> returns early (\<^verbatim>\<open>return []\<close>), before its "Disconnect all"
  loop: with one bot whose connect returns \<^verbatim>\<open>False\<close> the only call made on the
  bot is the connect, and \<^verbatim>\<open>disconnect\<close> is called 0 times. (When at least one bot
  connects, every bot is disconnected exactly once, whether it connected or not and
  whatever the run tasks returned or raised: \<open>swarm_run_disconnects\<close>.)
\<close>

theorem no_bot_connected_no_disconnect:
  "swarm_run 1 (\<lambda>i. Returned False) (\<lambda>i. Raised :: unit task_result) = ([], [CallConnect 1])
   \<and> disconnect_calls
        (snd (swarm_run 1 (\<lambda>i. Returned False) (\<lambda>i. Raised :: unit task_result))) 1 = 0"
  by (simp add: swarm_run_def disconnect_calls_def)

section \<open>The connection gate\<close>

lemma connect_batches_count:
  "connect_batches cr clients k = k + length (filter (\<lambda>i. cr i = Returned True) clients)"
proof (induction cr clients k rule: connect_batches.induct)
  case (1 cr clients k)
  show ?case
  proof (cases "clients = []")
    case True
    then show ?thesis by simp
  next
    case False
    have "length (filter (\<lambda>i. cr i = Returned True) clients) =
        length (filter (\<lambda>i. cr i = Returned True) (take 100 clients)) +
        length (filter (\<lambda>i. cr i = Returned True) (drop 100 clients))"
      by (metis append_take_drop_id filter_append length_append)
    moreover have "length (filter (\<lambda>result. result = Returned True) (map cr (take 100 clients)))
        = length (filter (\<lambda>i. cr i = Returned True) (take 100 clients))"
      by (simp add: filter_map comp_def)
    ultimately show ?thesis
      using False "1.IH" [OF False refl refl]
      by (subst connect_batches.simps) (simp add: Let_def del: connect_batches.simps)
  qed
qed

lemma stress_test_gate:
  "stress_test_run n cr after t1 t2 =
     (if 100 * length (filter (\<lambda>i. cr i = Returned True) [0..<n]) < 95 * n
      then (Inr False, None)
      else (bind_r (print_results t1 (map after [0..<n])) (\<lambda>u.
              verify_requirements t2 (map after [0..<n])), Some [0..<n]))"
proof -
  let ?c = "length (filter (\<lambda>i. cr i = Returned True) [0..<n])"
  have "real ?c < real n * 0.95 \<longleftrightarrow> 100 * real ?c < 95 * real n"
    by (simp add: field_simps)
  also have "\<dots> \<longleftrightarrow> real (100 * ?c) < real (95 * n)" by simp
  also have "\<dots> \<longleftrightarrow> 100 * ?c < 95 * n" by (rule of_nat_less_iff)
  finally show ?thesis
    unfolding stress_test_run_def Let_def connect_batches_count by simp
qed

lemma statistics_mean_ok: "xs \<noteq> [] \<Longrightarrow> statistics_mean xs = Inr (sum_list xs / real (length xs))"
  by (simp add: statistics_mean_def)

lemma p95_index_ok:
  assumes "xs \<noteq> []"
  shows "py_index xs (py_int (real (length xs) * 0.95)) =
           Inr (xs ! nat (py_int (real (length xs) * 0.95)))"
proof -
  let ?x = "real (length xs) * 0.95"
  have x0: "0 \<le> ?x" by simp
  then have i: "py_int ?x = \<lfloor>?x\<rfloor>" by (simp add: py_int_def)
  from x0 have lo: "0 \<le> \<lfloor>?x\<rfloor>" by (simp only: zero_le_floor)
  from assms have "0 < real (length xs)" by simp
  then have "?x < real (length xs)" by simp
  then have "?x < real_of_int (int (length xs))" by simp
  then have hi: "\<lfloor>?x\<rfloor> < int (length xs)" by (simp only: floor_less_iff)
  from lo hi show ?thesis unfolding py_index_def i by simp
qed

lemma print_results_empty: "print_results now [] = Inl StatisticsError"
  by (simp add: print_results_def statistics_mean_def bind_r_def)

lemma print_results_ok:
  assumes "clients \<noteq> []"
  shows "print_results now clients = Inr ()"
proof -
  let ?rtts = "concat (map cs_rtt_samples clients)"
  let ?d = "sum_list (map (cs_duration now) clients) / real (length clients)"
  have n: "real (length clients) \<noteq> 0" using assms by simp
  have m: "statistics_mean (map (cs_duration now) clients) = Inr ?d"
    using assms by (simp add: statistics_mean_def)
  have r: "(if ?rtts \<noteq> [] then
           bind_r (statistics_mean ?rtts) (\<lambda>avg.
           bind_r (py_index (sort ?rtts) (py_int (real (length ?rtts) * 0.95))) (\<lambda>p95.
             Inr ()))
         else Inr ()) = Inr ()"
  proof (cases "?rtts = []")
    case True
    then show ?thesis by simp
  next
    case False
    then have s: "sort ?rtts \<noteq> []" by (metis length_sort length_0_conv)
    from p95_index_ok [OF s] have "py_index (sort ?rtts) (py_int (real (length ?rtts) * 0.95)) =
        Inr (sort ?rtts ! nat (py_int (real (length ?rtts) * 0.95)))"
      by (simp only: length_sort)
    with False show ?thesis
      by (simp only: statistics_mean_ok [OF False] bind_r_def sum.case if_True simp_thms)
  qed
  show ?thesis
    unfolding print_results_def Let_def r m
    by (simp add: bind_r_def py_truediv_def n)
qed

lemma verify_requirements_ok:
  assumes "clients \<noteq> []"
  shows "\<exists>v. verify_requirements now clients = Inr v
           \<and> (v \<longrightarrow> 1000 \<le> length (filter (\<lambda>c. cs_disconnected_at c = None) clients))"
proof -
  let ?rtts = "concat (map cs_rtt_samples clients)"
  let ?d = "sum_list (map (cs_duration now) clients) / real (length clients)"
  let ?a = "1000 \<le> length (filter (\<lambda>c. cs_disconnected_at c = None) clients)"
  have n: "real (length clients) \<noteq> 0" using assms by simp
  have m: "statistics_mean (map (cs_duration now) clients) = Inr ?d"
    using assms by (simp add: statistics_mean_def)
  obtain w where r: "(if ?rtts \<noteq> [] then
           bind_r (statistics_mean ?rtts) (\<lambda>avg_rtt.
             Inr (if avg_rtt < 50 then (if ?a then True else False) else False))
         else Inr (if ?a then True else False)) = Inr w" and w: "w \<longrightarrow> ?a"
  proof (cases "?rtts = []")
    case True
    then show ?thesis using that [of ?a] by simp
  next
    case False
    then show ?thesis
      using that [of "if sum_list ?rtts / real (length ?rtts) < 50 then ?a else False"]
      by (simp add: statistics_mean_def bind_r_def)
  qed
  show ?thesis
    unfolding verify_requirements_def Let_def r m
    using w by (simp add: bind_r_def py_truediv_def n)
qed

lemma run_ids_append: "run_ids (xs @ ys) = run_ids xs @ run_ids ys"
  by (simp add: run_ids_def)

lemma run_ids_connect: "run_ids (map CallConnect xs) = []"
  by (induction xs) (simp_all add: run_ids_def)

lemma run_ids_disconnect: "run_ids (map CallDisconnect xs) = []"
  by (induction xs) (simp_all add: run_ids_def)

lemma run_ids_run: "run_ids (map CallRun xs) = xs"
  by (induction xs) (simp_all add: run_ids_def)

lemma swarm_bots: "map (\<lambda>i. i + 1) [0..<n] = [1..<n + 1]"
  using map_Suc_upt [of 0 n] by simp

lemma swarm_run_unfold:
  "swarm_run n cr rr =
     (if filter (\<lambda>i. cr i = Returned True) [1..<n + 1] = []
      then ([], map CallConnect [1..<n + 1])
      else (valid_results (map rr (filter (\<lambda>i. cr i = Returned True) [1..<n + 1])),
            map CallConnect [1..<n + 1]
            @ map CallRun (filter (\<lambda>i. cr i = Returned True) [1..<n + 1])
            @ map CallDisconnect [1..<n + 1]))"
  unfolding swarm_run_def Let_def connected_bots_eq swarm_bots by simp

lemma swarm_run_run_ids:
  "run_ids (snd (swarm_run n cr rr)) = filter (\<lambda>i. cr i = Returned True) [1..<n + 1]"
  unfolding swarm_run_unfold
  by (simp add: run_ids_append run_ids_connect run_ids_disconnect run_ids_run del: upt_Suc)

lemma swarm_run_stats:
  "fst (swarm_run n cr rr) =
     valid_results (map rr (filter (\<lambda>i. cr i = Returned True) [1..<n + 1]))"
  unfolding swarm_run_unfold by (simp add: valid_results_def del: upt_Suc)

lemma some_bot_connected:
  "filter (\<lambda>i. cr i = Returned True) [1..<n + 1] \<noteq> [] \<longleftrightarrow>
     (\<exists>i. 1 \<le> i \<and> i \<le> n \<and> cr i = Returned True)"
proof -
  have "filter (\<lambda>i. cr i = Returned True) [1..<n + 1] \<noteq> [] \<longleftrightarrow>
      (\<exists>i \<in> set [1..<n + 1]. cr i = Returned True)"
    by (simp only: filter_empty_conv) blast
  also have "\<dots> \<longleftrightarrow> (\<exists>i. 1 \<le> i \<and> i \<le> n \<and> cr i = Returned True)"
    by (simp only: set_upt) auto
  finally show ?thesis .
qed

text \<open>
  Claim C7 speaks of a configured acceptance threshold below which the orchestrator
  does not run, with 44 of 50 bots (88%) insufficient under a 90% threshold.
  \<^verbatim>\<open>BotSwarm.run\<close> has no threshold: it stops only when no bot connected. With 44
  of 50 bots connected, below 90%, it runs the 44 bots; with 1 of 50 connected, below
  80%, it runs that one bot.
\<close>

theorem acceptance_threshold_counterexample:
  "\<not> spec_viable 0.9 50 44
   \<and> run_ids (snd (swarm_run 50 (\<lambda>i. Returned (i \<le> 44)) (\<lambda>i. Raised :: unit task_result)))
       = [1..<45]
   \<and> \<not> spec_viable 0.8 50 1
   \<and> run_ids (snd (swarm_run 50 (\<lambda>i. Returned (i = 1)) (\<lambda>i. Raised :: unit task_result)))
       = [1]"
proof -
  have 1: "\<not> spec_viable 0.9 50 44" and 3: "\<not> spec_viable 0.8 50 1"
    by (simp_all add: spec_viable_def)
  have 2: "run_ids (snd (swarm_run 50 (\<lambda>i. Returned (i \<le> 44))
      (\<lambda>i. Raised :: unit task_result))) = [1..<45]"
    by (simp add: swarm_run_run_ids upt_conv_Cons)
  have 4: "run_ids (snd (swarm_run 50 (\<lambda>i. Returned (i = 1))
      (\<lambda>i. Raised :: unit task_result))) = [1]"
    by (simp add: swarm_run_run_ids upt_conv_Cons)
  show ?thesis by (intro conjI) (rule 1, rule 2, rule 3, rule 4)
qed

text \<open>
  Claim C7, amended. \<^verbatim>\<open>StressTest.run\<close> enters the run phase, where it runs all
  its clients, exactly when the number of clients whose connect returned \<^verbatim>\<open>True\<close>
  is at least 95% of the configured number (a fixed threshold); otherwise it returns
  \<^verbatim>\<open>False\<close> without running. With no client configured it enters the run phase
  and \<^verbatim>\<open>print_results\<close> raises \<^verbatim>\<open>StatisticsError\<close>. With at least one
  client, when it enters the run phase it returns what \<^verbatim>\<open>verify_requirements\<close>
  returns, which is \<^verbatim>\<open>True\<close> only if at least 1000 clients are still active.
  \<^verbatim>\<open>BotSwarm.run\<close> runs exactly the bots whose connect returned \<^verbatim>\<open>True\<close>, in
  the order of their ids, returns the statistics of those whose run returned, and
  runs some bot exactly when at least one connected.
\<close>

theorem connection_gate:
  "snd (stress_test_run n cr after t1 t2) =
     (if 95 * n \<le> 100 * length (filter (\<lambda>i. cr i = Returned True) [0..<n])
      then Some [0..<n] else None)
   \<and> (100 * length (filter (\<lambda>i. cr i = Returned True) [0..<n]) < 95 * n \<longrightarrow>
        fst (stress_test_run n cr after t1 t2) = Inr False)
   \<and> stress_test_run 0 cr after t1 t2 = (Inl StatisticsError, Some [])
   \<and> (0 < n \<and> 95 * n \<le> 100 * length (filter (\<lambda>i. cr i = Returned True) [0..<n]) \<longrightarrow>
        (\<exists>v. fst (stress_test_run n cr after t1 t2) = Inr v
           \<and> verify_requirements t2 (map after [0..<n]) = Inr v
           \<and> (v \<longrightarrow> 1000 \<le> length (filter (\<lambda>c. cs_disconnected_at c = None)
                                    (map after [0..<n])))))
   \<and> run_ids (snd (swarm_run n cr rr)) = filter (\<lambda>i. cr i = Returned True) [1..<n + 1]
   \<and> fst (swarm_run n cr rr) =
        valid_results (map rr (filter (\<lambda>i. cr i = Returned True) [1..<n + 1]))
   \<and> (run_ids (snd (swarm_run n cr rr)) \<noteq> [] \<longleftrightarrow>
        (\<exists>i. 1 \<le> i \<and> i \<le> n \<and> cr i = Returned True))"
proof (intro conjI impI)
  show "snd (stress_test_run n cr after t1 t2) =
     (if 95 * n \<le> 100 * length (filter (\<lambda>i. cr i = Returned True) [0..<n])
      then Some [0..<n] else None)"
    unfolding stress_test_gate by (simp add: not_less del: upt.simps)
next
  assume "100 * length (filter (\<lambda>i. cr i = Returned True) [0..<n]) < 95 * n"
  then show "fst (stress_test_run n cr after t1 t2) = Inr False"
    unfolding stress_test_gate by (simp del: upt.simps)
next
  show "stress_test_run 0 cr after t1 t2 = (Inl StatisticsError, Some [])"
    unfolding stress_test_gate by (simp add: print_results_empty bind_r_def)
next
  assume a: "0 < n \<and> 95 * n \<le> 100 * length (filter (\<lambda>i. cr i = Returned True) [0..<n])"
  then have ne: "map after [0..<n] \<noteq> []" by simp
  from verify_requirements_ok [OF ne, of t2] obtain v where
    v: "verify_requirements t2 (map after [0..<n]) = Inr v"
    and w: "v \<longrightarrow> 1000 \<le> length (filter (\<lambda>c. cs_disconnected_at c = None) (map after [0..<n]))"
    by blast
  from a have g: "\<not> 100 * length (filter (\<lambda>i. cr i = Returned True) [0..<n]) < 95 * n"
    by simp
  have "fst (stress_test_run n cr after t1 t2) = Inr v"
    unfolding stress_test_gate print_results_ok [OF ne] v using g
    by (simp add: bind_r_def del: upt.simps)
  with v w show "\<exists>v. fst (stress_test_run n cr after t1 t2) = Inr v
           \<and> verify_requirements t2 (map after [0..<n]) = Inr v
           \<and> (v \<longrightarrow> 1000 \<le> length (filter (\<lambda>c. cs_disconnected_at c = None)
                                    (map after [0..<n])))"
    by blast
next
  show "run_ids (snd (swarm_run n cr rr)) = filter (\<lambda>i. cr i = Returned True) [1..<n + 1]"
    by (rule swarm_run_run_ids)
next
  show "fst (swarm_run n cr rr) =
        valid_results (map rr (filter (\<lambda>i. cr i = Returned True) [1..<n + 1]))"
    by (rule swarm_run_stats)
next
  show "run_ids (snd (swarm_run n cr rr)) \<noteq> [] \<longleftrightarrow>
        (\<exists>i. 1 \<le> i \<and> i \<le> n \<and> cr i = Returned True)"
    unfolding swarm_run_run_ids by (rule some_bot_connected)
qed

theorem connection_gate_witness:
  "stress_test_run 50 (\<lambda>i. Returned (i < 44))
       (\<lambda>i. \<lparr>cs_connection_id = int i, cs_connected_at = 0, cs_disconnected_at = Some 1,
             cs_bytes_sent = 17, cs_bytes_received = 100, cs_packets_sent = 1,
             cs_packets_received = 1, cs_rtt_samples = [20]\<rparr>) 2 2
     = (Inr False, None)
   \<and> stress_test_run 50 (\<lambda>i. Returned (i < 48))
       (\<lambda>i. \<lparr>cs_connection_id = int i, cs_connected_at = 0, cs_disconnected_at = Some 1,
             cs_bytes_sent = 17, cs_bytes_received = 100, cs_packets_sent = 1,
             cs_packets_received = 1, cs_rtt_samples = [20]\<rparr>) 2 2
     = (Inr False, Some [0..<50])
   \<and> stress_test_run 0 (\<lambda>i. Returned True)
       (\<lambda>i. \<lparr>cs_connection_id = int i, cs_connected_at = 0, cs_disconnected_at = Some 1,
             cs_bytes_sent = 17, cs_bytes_received = 100, cs_packets_sent = 1,
             cs_packets_received = 1, cs_rtt_samples = [20]\<rparr>) 2 2
     = (Inl StatisticsError, Some [])
   \<and> run_ids (snd (swarm_run 50 (\<lambda>i. Returned (i \<le> 44)) (\<lambda>i. Returned i))) = [1..<45]
   \<and> fst (swarm_run 50 (\<lambda>i. Returned (i \<le> 44)) (\<lambda>i. Returned i)) = [1..<45]
   \<and> run_ids (snd (swarm_run 50 (\<lambda>i. Returned False) (\<lambda>i. Returned i))) = []"
proof -
  let ?after = "\<lambda>i. \<lparr>cs_connection_id = int i, cs_connected_at = 0,
      cs_disconnected_at = Some 1, cs_bytes_sent = 17, cs_bytes_received = 100,
      cs_packets_sent = 1, cs_packets_received = 1, cs_rtt_samples = [20 :: real]\<rparr>"
  have a: "length (filter (\<lambda>i. Returned (i < 44) = Returned True) [0..<50]) = 44"
    by (simp add: upt_conv_Cons)
  have b: "length (filter (\<lambda>i. Returned (i < 48) = Returned True) [0..<50]) = 48"
    by (simp add: upt_conv_Cons)
  have c: "filter (\<lambda>i. Returned (i \<le> 44) = Returned True) [1..<50 + 1] = [1..<45]"
    by (simp add: upt_conv_Cons)
  have d: "filter (\<lambda>i. Returned False = Returned True) [1..<50 + 1] = []"
    by simp
  note t1 = connection_gate [where n = 50 and cr = "\<lambda>i. Returned (i < 44)" and after = ?after
      and ?t1.0 = 2 and ?t2.0 = 2 and rr = "\<lambda>i. Returned i"]
  note t2 = connection_gate [where n = 50 and cr = "\<lambda>i. Returned (i < 48)" and after = ?after
      and ?t1.0 = 2 and ?t2.0 = 2 and rr = "\<lambda>i. Returned i"]
  note t3 = connection_gate [where n = 50 and cr = "\<lambda>i. Returned (i \<le> 44)" and after = ?after
      and ?t1.0 = 2 and ?t2.0 = 2 and rr = "\<lambda>i. Returned i"]
  note t4 = connection_gate [where n = 50 and cr = "\<lambda>i. Returned False" and after = ?after
      and ?t1.0 = 2 and ?t2.0 = 2 and rr = "\<lambda>i. Returned i"]
  have 1: "stress_test_run 50 (\<lambda>i. Returned (i < 44)) ?after 2 2 = (Inr False, None)"
  proof -
    from t1 have "snd (stress_test_run 50 (\<lambda>i. Returned (i < 44)) ?after 2 2) = None"
      unfolding a by simp
    moreover from t1 have "fst (stress_test_run 50 (\<lambda>i. Returned (i < 44)) ?after 2 2) = Inr False"
      unfolding a by simp
    ultimately show ?thesis by (simp add: prod_eq_iff)
  qed
  have 2: "stress_test_run 50 (\<lambda>i. Returned (i < 48)) ?after 2 2 = (Inr False, Some [0..<50])"
  proof -
    from t2 have s: "snd (stress_test_run 50 (\<lambda>i. Returned (i < 48)) ?after 2 2) = Some [0..<50]"
      unfolding b by simp
    have "length (filter (\<lambda>c. cs_disconnected_at c = None) (map ?after [0..<50])) \<le> 50"
      by (rule order_trans [OF length_filter_le]) simp
    then have l: "\<not> 1000 \<le> length (filter (\<lambda>c. cs_disconnected_at c = None) (map ?after [0..<50]))"
      by linarith
    have h: "0 < (50 :: nat) \<and> 95 * (50 :: nat) \<le> 100 * 48" by simp
    from t2 have "0 < (50 :: nat) \<and> 95 * (50 :: nat) \<le> 100 * 48 \<longrightarrow>
        (\<exists>v. fst (stress_test_run 50 (\<lambda>i. Returned (i < 48)) ?after 2 2) = Inr v
           \<and> verify_requirements 2 (map ?after [0..<50]) = Inr v
           \<and> (v \<longrightarrow> 1000 \<le> length (filter (\<lambda>c. cs_disconnected_at c = None)
                                    (map ?after [0..<50]))))"
      unfolding b by (elim conjE)
    with h obtain v where "fst (stress_test_run 50 (\<lambda>i. Returned (i < 48)) ?after 2 2) = Inr v"
      and "v \<longrightarrow> 1000 \<le> length (filter (\<lambda>c. cs_disconnected_at c = None) (map ?after [0..<50]))"
      by blast
    with l have "fst (stress_test_run 50 (\<lambda>i. Returned (i < 48)) ?after 2 2) = Inr False"
      by auto
    with s show ?thesis by (simp add: prod_eq_iff)
  qed
  have 3: "stress_test_run 0 (\<lambda>i. Returned True) ?after 2 2 = (Inl StatisticsError, Some [])"
    using connection_gate [where n = 0 and cr = "\<lambda>i. Returned True" and after = ?after
      and ?t1.0 = 2 and ?t2.0 = 2 and rr = "\<lambda>i. Returned i"]
    by (elim conjE)
  have 4: "run_ids (snd (swarm_run 50 (\<lambda>i. Returned (i \<le> 44)) (\<lambda>i. Returned i))) = [1..<45]"
    using t3 unfolding c by (elim conjE)
  have 5: "fst (swarm_run 50 (\<lambda>i. Returned (i \<le> 44)) (\<lambda>i. Returned i)) = [1..<45]"
  proof -
    from t3 have "fst (swarm_run 50 (\<lambda>i. Returned (i \<le> 44)) (\<lambda>i. Returned i)) =
        valid_results (map (\<lambda>i. Returned i) [1..<45])"
      unfolding c by (elim conjE)
    moreover have "valid_results (map Returned xs) = xs" for xs :: "nat list"
      by (induction xs) (simp_all add: valid_results_def)
    ultimately show ?thesis by simp
  qed
  have 6: "run_ids (snd (swarm_run 50 (\<lambda>i. Returned False) (\<lambda>i. Returned i))) = []"
    using t4 unfolding d by (elim conjE)
  show ?thesis by (intro conjI) (rule 1, rule 2, rule 3, rule 4, rule 5, rule 6)
qed

section \<open>Percentiles: nearest rank\<close>

lemma py_int_of_nat_div:
  "py_int (of_int (int n * p) / 100) = (int n * p) div 100" if "0 \<le> p"
proof -
  have "(0::real) \<le> of_int (int n * p) / 100" using that by simp
  then have "py_int (of_int (int n * p) / 100) = \<lfloor>real_of_int (int n * p) / real_of_int 100\<rfloor>"
    by (simp add: py_int_def)
  also have "\<dots> = (int n * p) div 100" by (rule floor_divide_of_int_eq)
  finally show ?thesis .
qed

lemma floor_percent:
  "\<lfloor>real n * 0.95\<rfloor> = (int n * 95) div 100" "\<lfloor>real n * 0.99\<rfloor> = (int n * 99) div 100"
proof -
  have "real n * 0.95 = real_of_int (int n * 95) / real_of_int 100" by simp
  then show "\<lfloor>real n * 0.95\<rfloor> = (int n * 95) div 100"
    by (simp only: floor_divide_of_int_eq)
  have "real n * 0.99 = real_of_int (int n * 99) / real_of_int 100" by simp
  then show "\<lfloor>real n * 0.99\<rfloor> = (int n * 99) div 100"
    by (simp only: floor_divide_of_int_eq)
qed

lemma percentile_nearest_rank:
  assumes "data \<noteq> []" "0 \<le> p" 
  shows "percentile data p = Inr (sort data ! min (nat ((int (length data) * p) div 100)) (length data - 1))"
proof -
  let ?n = "length data"
  let ?i = "(int ?n * p) div 100"
  have n: "0 < ?n" using assms by simp
  have i0: "0 \<le> ?i" using assms by (simp add: pos_imp_zdiv_nonneg_iff)
  let ?m = "min ?i (int ?n - 1)"
  have m: "0 \<le> ?m" "?m < int (length (sort data))" using i0 n by simp_all
  have e: "nat ?m = min (nat ?i) (?n - 1)" using i0 n by (simp add: min_def) linarith
  have "percentile data p =
      py_index (sort data) (min (py_int (of_int (int (length (sort data)) * p) / 100))
                                (int (length (sort data)) - 1))"
    using assms(1) unfolding percentile_def Let_def by (simp only: if_False)
  also have "\<dots> = py_index (sort data) ?m"
    by (simp only: length_sort py_int_of_nat_div [OF assms(2)])
  also have "\<dots> = Inr (sort data ! nat ?m)"
    using m unfolding py_index_def by (simp only: if_True simp_thms)
  finally show ?thesis by (simp only: e)
qed

lemma clamp_inactive:
  assumes "0 < n" "0 \<le> p" "p < 100"
  shows "nat ((int n * p) div 100) \<le> n - 1"
proof -
  have "int n * p < int n * 100" using assms by simp
  then have "(int n * p) div 100 < int n"
    by (simp add: div_less_iff_less_mult)
  with assms show ?thesis by linarith
qed

text \<open>
  Claim C8. For every non-empty list of samples, \<^verbatim>\<open>_percentile\<close> returns for p95 and
  p99 the element of the ascending sort at index \<open>floor(n * 0.95)\<close> respectively
  \<open>floor(n * 0.99)\<close>, clamped to the last index \<open>n - 1\<close> (which these indices never
  exceed); no index is out of range. For the ten samples 10, 20, ..., 100 the p95 index
  is 9 and the value is 100.
\<close>

theorem percentile_nearest_rank_p95_p99:
  assumes "data \<noteq> []"
  shows "percentile data 95 =
           Inr (sort data ! min (nat \<lfloor>real (length data) * 0.95\<rfloor>) (length data - 1))
       \<and> percentile data 99 =
           Inr (sort data ! min (nat \<lfloor>real (length data) * 0.99\<rfloor>) (length data - 1))
       \<and> min (nat \<lfloor>real (length data) * 0.95\<rfloor>) (length data - 1) < length (sort data)
       \<and> min (nat \<lfloor>real (length data) * 0.99\<rfloor>) (length data - 1) < length (sort data)"
proof -
  have n: "0 < length data" using assms by simp
  have "percentile data 95 =
      Inr (sort data ! min (nat \<lfloor>real (length data) * 0.95\<rfloor>) (length data - 1))"
    using percentile_nearest_rank [OF assms, of 95] by (simp only: floor_percent)
  moreover have "percentile data 99 =
      Inr (sort data ! min (nat \<lfloor>real (length data) * 0.99\<rfloor>) (length data - 1))"
    using percentile_nearest_rank [OF assms, of 99] by (simp only: floor_percent)
  moreover have "min (nat \<lfloor>real (length data) * 0.95\<rfloor>) (length data - 1) < length (sort data)"
    "min (nat \<lfloor>real (length data) * 0.99\<rfloor>) (length data - 1) < length (sort data)"
  proof -
    have b: "\<And>x. min x (length data - 1) < length (sort data)"
      using n by (simp add: min_less_iff_disj)
    show "min (nat \<lfloor>real (length data) * 0.95\<rfloor>) (length data - 1) < length (sort data)"
      by (rule b)
    show "min (nat \<lfloor>real (length data) * 0.99\<rfloor>) (length data - 1) < length (sort data)"
      by (rule b)
  qed
  ultimately show ?thesis by blast
qed

theorem percentile_nearest_rank_p95_p99_witness:
  "[10, 20, 30, 40, 50, 60, 70, 80, 90, 100 :: real] \<noteq> []
   \<and> min (nat \<lfloor>real (length [10, 20, 30, 40, 50, 60, 70, 80, 90, 100 :: real]) * 0.95\<rfloor>)
         (length [10, 20, 30, 40, 50, 60, 70, 80, 90, 100 :: real] - 1) = 9
   \<and> percentile [10, 20, 30, 40, 50, 60, 70, 80, 90, 100] 95 = Inr 100
   \<and> percentile [40, 100, 20, 30, 10, 50, 60, 70, 80, 90] 95 = Inr 100"
proof -
  have h1: "[10, 20, 30, 40, 50, 60, 70, 80, 90, 100 :: real] \<noteq> []" by simp
  have h2: "[40, 100, 20, 30, 10, 50, 60, 70, 80, 90 :: real] \<noteq> []" by simp
  have i: "min (nat \<lfloor>real (length [10, 20, 30, 40, 50, 60, 70, 80, 90, 100 :: real]) * 0.95\<rfloor>)
         (length [10, 20, 30, 40, 50, 60, 70, 80, 90, 100 :: real] - 1) = 9"
    by simp
  have j: "min (nat \<lfloor>real (length [40, 100, 20, 30, 10, 50, 60, 70, 80, 90 :: real]) * 0.95\<rfloor>)
         (length [40, 100, 20, 30, 10, 50, 60, 70, 80, 90 :: real] - 1) = 9"
    by simp
  have s1: "sort [10, 20, 30, 40, 50, 60, 70, 80, 90, 100 :: real] ! 9 = 100" by simp
  have s2: "sort [40, 100, 20, 30, 10, 50, 60, 70, 80, 90 :: real] ! 9 = 100" by simp
  from percentile_nearest_rank_p95_p99 [OF h1]
  have "percentile [10, 20, 30, 40, 50, 60, 70, 80, 90, 100] 95 = Inr 100"
    unfolding i s1 by blast
  moreover from percentile_nearest_rank_p95_p99 [OF h2]
  have "percentile [40, 100, 20, 30, 10, 50, 60, 70, 80, 90] 95 = Inr 100"
    unfolding j s2 by blast
  ultimately show ?thesis using h1 i by blast
qed

section \<open>Statistics and budgets\<close>

lemma elapsed_time_min: "0.001 \<le> elapsed_time now b"
proof (cases "start_time b \<noteq> 0")
  case True
  have "(0.001 :: real) \<le> max (now - start_time b) 0.001" by (rule max.cobounded2)
  with True show ?thesis unfolding elapsed_time_def by (simp only: if_True simp_thms)
next
  case False
  then show ?thesis unfolding elapsed_time_def by (simp only: if_False order_refl simp_thms)
qed

lemma py_truediv_ok: "c \<noteq> 0 \<Longrightarrow> py_truediv a c = Inr (a / c)"
  by (simp add: py_truediv_def)

lemma get_stats_returns:
  "get_stats now b =
     Inr \<lparr>s_bot_id = bot_id b,
          s_entity_id = entity_id b,
          s_connection_id = connection_id b,
          s_packets_sent = packets_sent b,
          s_packets_received = packets_received b,
          s_bytes_sent = bytes_sent b,
          s_bytes_received = bytes_received b,
          s_snapshots_received = snapshot_count b,
          s_corrections_received = correction_count b,
          s_events_received = event_count b,
          s_last_processed_input = last_processed_input b,
          s_duration_seconds = elapsed_time now b,
          s_packets_sent_per_sec = of_int (packets_sent b) / elapsed_time now b,
          s_packets_received_per_sec = of_int (packets_received b) / elapsed_time now b,
          s_bytes_sent_per_sec = of_int (bytes_sent b) / elapsed_time now b,
          s_bytes_received_per_sec = of_int (bytes_received b) / elapsed_time now b,
          s_snapshots_per_sec = of_int (snapshot_count b) / elapsed_time now b,
          s_avg_bandwidth_down_kbps = of_int (bytes_received b * 8) / 1024 / elapsed_time now b,
          s_avg_bandwidth_up_kbps = of_int (bytes_sent b * 8) / 1024 / elapsed_time now b\<rparr>"
proof -
  have "elapsed_time now b \<noteq> 0" using elapsed_time_min [of now b] by simp
  then have d: "\<And>a. py_truediv a (elapsed_time now b) = Inr (a / elapsed_time now b)"
    by (simp add: py_truediv_def)
  show ?thesis
    unfolding get_stats_def Let_def by (simp only: d bind_r_def sum.case)
qed

lemma py_max_in: "xs \<noteq> [] \<Longrightarrow> py_max xs \<in> set xs"
proof -
  have "\<And>a. foldl max a ys \<in> insert a (set ys)" for ys :: "real list"
    by (induction ys) (auto simp: max_def)
  then show "xs \<noteq> [] \<Longrightarrow> py_max xs \<in> set xs"
    unfolding py_max_def by (cases xs) auto
qed

lemma py_max_ge: "x \<in> set xs \<Longrightarrow> x \<le> py_max xs"
proof -
  have f: "\<And>a. a \<le> foldl max a ys \<and> (\<forall>y \<in> set ys. y \<le> foldl max a ys)" for ys :: "real list"
  proof (induction ys)
    case Nil
    show ?case by simp
  next
    case (Cons y ys)
    from Cons [of "max a y"] show ?case by (auto simp: max_def split: if_splits)
  qed
  show "x \<in> set xs \<Longrightarrow> x \<le> py_max xs"
    unfolding py_max_def using f [of "hd xs" "tl xs"] by (cases xs) auto
qed

text \<open>
  Claim C10. For every bot in any state and at any time, \<^verbatim>\<open>get_stats\<close> returns its
  dict and raises no \<^verbatim>\<open>ZeroDivisionError\<close>: the duration it divides by is at
  least 0.001 seconds, and exactly 0.001 when the start time is unset (0.0, the bot
  never connected). Every per-second field is then the quotient it is meant to be:
  multiplied by the duration it gives back its counter.
\<close>

theorem get_stats_never_divides_by_zero:
  "\<exists>s. get_stats now b = Inr s
     \<and> s_duration_seconds s = elapsed_time now b
     \<and> 0.001 \<le> s_duration_seconds s
     \<and> (start_time b = 0 \<longrightarrow> s_duration_seconds s = 0.001)
     \<and> s_packets_sent_per_sec s * s_duration_seconds s = of_int (packets_sent b)
     \<and> s_packets_received_per_sec s * s_duration_seconds s = of_int (packets_received b)
     \<and> s_bytes_sent_per_sec s * s_duration_seconds s = of_int (bytes_sent b)
     \<and> s_bytes_received_per_sec s * s_duration_seconds s = of_int (bytes_received b)
     \<and> s_snapshots_per_sec s * s_duration_seconds s = of_int (snapshot_count b)
     \<and> s_avg_bandwidth_down_kbps s * s_duration_seconds s = of_int (bytes_received b * 8) / 1024
     \<and> s_avg_bandwidth_up_kbps s * s_duration_seconds s = of_int (bytes_sent b * 8) / 1024"
proof -
  have nz: "elapsed_time now b \<noteq> 0" using elapsed_time_min [of now b] by simp
  have z: "start_time b = 0 \<longrightarrow> elapsed_time now b = 0.001"
    by (simp add: elapsed_time_def)
  show ?thesis
    unfolding get_stats_returns
    using nz z elapsed_time_min [of now b]
    by simp
qed

theorem get_stats_never_divides_by_zero_witness:
  "start_time (new_bot 1 ''random'' 60 0) = 0
   \<and> (\<exists>s. get_stats 12345 (new_bot 1 ''random'' 60 0) = Inr s \<and> s_duration_seconds s = 0.001)
   \<and> get_stats 12345 (new_bot 1 ''random'' 60 0) \<noteq> Inl ZeroDivisionError"
proof -
  have h: "start_time (new_bot 1 ''random'' 60 0) = 0" by (simp add: new_bot_def)
  from get_stats_never_divides_by_zero [of 12345 "new_bot 1 ''random'' 60 0"] h
  obtain s where "get_stats 12345 (new_bot 1 ''random'' 60 0) = Inr s" "s_duration_seconds s = 0.001"
    by blast
  with h show ?thesis by auto
qed

lemma print_summary_returns:
  assumes "stats \<noteq> []" "py_max (map s_duration_seconds stats) \<noteq> 0"
  shows "print_summary stats =
     Inr (Some \<lparr>avg_up_per_bot = of_int (sum_list (map s_bytes_sent stats)) / of_nat (length stats)
                     / py_max (map s_duration_seconds stats),
                 avg_down_per_bot = of_int (sum_list (map s_bytes_received stats)) / of_nat (length stats)
                     / py_max (map s_duration_seconds stats),
                 up_ok = (of_int (sum_list (map s_bytes_sent stats)) / of_nat (length stats)
                     / py_max (map s_duration_seconds stats) \<le> MAX_UPSTREAM_BYTES_PER_SEC),
                 down_ok = (of_int (sum_list (map s_bytes_received stats)) / of_nat (length stats)
                     / py_max (map s_duration_seconds stats) \<le> MAX_DOWNSTREAM_BYTES_PER_SEC)\<rparr>)"
proof -
  have d: "\<And>a. py_truediv a (py_max (map s_duration_seconds stats)) =
      Inr (a / py_max (map s_duration_seconds stats))"
    using assms(2) by (simp add: py_truediv_def)
  show ?thesis
    unfolding print_summary_def Let_def using assms(1)
    by (simp only: d bind_r_def sum.case if_False)
qed

lemma print_summary_zero_duration:
  assumes "stats \<noteq> []" "py_max (map s_duration_seconds stats) = 0"
  shows "print_summary stats = Inl ZeroDivisionError"
  unfolding print_summary_def Let_def using assms
  by (simp add: py_truediv_def bind_r_def)

text \<open>
  Claim C9. For every list of bot statistics with at least one bot and a positive
  duration (the largest \<^verbatim>\<open>duration_seconds\<close> of the bots), \<^verbatim>\<open>print_summary\<close>
  reports the upstream budget as PASS if and only if the average upstream rate per bot,
  total bytes sent divided by the number of bots and by the duration, is at most
  \<^verbatim>\<open>MAX_UPSTREAM_BYTES_PER_SEC\<close> = 2048, and the downstream budget likewise against
  \<^verbatim>\<open>MAX_DOWNSTREAM_BYTES_PER_SEC\<close> = 20480. Ten bots with 2048 bytes sent each over 10
  seconds (204.8 bytes per second and bot) pass; with 25000 bytes each (2500 bytes per
  second and bot) they fail.
\<close>

theorem budget_checks:
  assumes "stats \<noteq> []" and "0 < py_max (map s_duration_seconds stats)"
  shows "\<exists>r. print_summary stats = Inr (Some r)
     \<and> avg_up_per_bot r = real_of_int (sum_list (map s_bytes_sent stats)) / real (length stats)
          / py_max (map s_duration_seconds stats)
     \<and> avg_down_per_bot r = real_of_int (sum_list (map s_bytes_received stats)) / real (length stats)
          / py_max (map s_duration_seconds stats)
     \<and> (up_ok r \<longleftrightarrow> avg_up_per_bot r \<le> MAX_UPSTREAM_BYTES_PER_SEC)
     \<and> (down_ok r \<longleftrightarrow> avg_down_per_bot r \<le> MAX_DOWNSTREAM_BYTES_PER_SEC)
     \<and> (up_ok r \<longleftrightarrow> real_of_int (sum_list (map s_bytes_sent stats))
            \<le> 2048 * (real (length stats) * py_max (map s_duration_seconds stats)))
     \<and> (down_ok r \<longleftrightarrow> real_of_int (sum_list (map s_bytes_received stats))
            \<le> 20480 * (real (length stats) * py_max (map s_duration_seconds stats)))"
proof -
  let ?d = "py_max (map s_duration_seconds stats)"
  let ?n = "real (length stats)"
  have n: "0 < ?n" using assms(1) by simp
  have nd: "0 < ?n * ?d" using n assms(2) by simp
  have x: "\<And>t c :: real. (t / ?n / ?d \<le> c) \<longleftrightarrow> (t \<le> c * (?n * ?d))"
  proof -
    fix t c :: real
    have "t / ?n / ?d = t / (?n * ?d)" by simp
    then show "(t / ?n / ?d \<le> c) \<longleftrightarrow> (t \<le> c * (?n * ?d))"
      using nd by (simp only: pos_divide_le_eq)
  qed
  have y: "\<And>t c :: real. (t / (?n * ?d) \<le> c) \<longleftrightarrow> (t \<le> c * (?n * ?d))"
    using nd by (simp only: pos_divide_le_eq)
  have nz: "?d \<noteq> 0" using assms(2) by simp
  show ?thesis
    unfolding print_summary_returns [OF assms(1) nz]
    by (simp add: x y MAX_UPSTREAM_BYTES_PER_SEC_def MAX_DOWNSTREAM_BYTES_PER_SEC_def
        del: of_nat_mult)
qed

theorem budget_checks_witness:
  "replicate 10 
     \<lparr>s_bot_id = 1, s_entity_id = Some 1, s_connection_id = Some 1,
        s_packets_sent = 600, s_packets_received = 0, s_bytes_sent = 2048,
        s_bytes_received = 0, s_snapshots_received = 0, s_corrections_received = 0,
        s_events_received = 0, s_last_processed_input = 0, s_duration_seconds = 10,
        s_packets_sent_per_sec = 60, s_packets_received_per_sec = 0,
        s_bytes_sent_per_sec = 2048 / 10, s_bytes_received_per_sec = 0,
        s_snapshots_per_sec = 0, s_avg_bandwidth_down_kbps = 0,
        s_avg_bandwidth_up_kbps = 2048 * 8 / 1024 / 10\<rparr> \<noteq> []
   \<and> py_max (map s_duration_seconds (replicate 10 
     \<lparr>s_bot_id = 1, s_entity_id = Some 1, s_connection_id = Some 1,
        s_packets_sent = 600, s_packets_received = 0, s_bytes_sent = 2048,
        s_bytes_received = 0, s_snapshots_received = 0, s_corrections_received = 0,
        s_events_received = 0, s_last_processed_input = 0, s_duration_seconds = 10,
        s_packets_sent_per_sec = 60, s_packets_received_per_sec = 0,
        s_bytes_sent_per_sec = 2048 / 10, s_bytes_received_per_sec = 0,
        s_snapshots_per_sec = 0, s_avg_bandwidth_down_kbps = 0,
        s_avg_bandwidth_up_kbps = 2048 * 8 / 1024 / 10\<rparr>)) = 10
   \<and> print_summary (replicate 10 
     \<lparr>s_bot_id = 1, s_entity_id = Some 1, s_connection_id = Some 1,
        s_packets_sent = 600, s_packets_received = 0, s_bytes_sent = 2048,
        s_bytes_received = 0, s_snapshots_received = 0, s_corrections_received = 0,
        s_events_received = 0, s_last_processed_input = 0, s_duration_seconds = 10,
        s_packets_sent_per_sec = 60, s_packets_received_per_sec = 0,
        s_bytes_sent_per_sec = 2048 / 10, s_bytes_received_per_sec = 0,
        s_snapshots_per_sec = 0, s_avg_bandwidth_down_kbps = 0,
        s_avg_bandwidth_up_kbps = 2048 * 8 / 1024 / 10\<rparr>) =
       Inr (Some \<lparr>avg_up_per_bot = 204.8, avg_down_per_bot = 0, up_ok = True, down_ok = True\<rparr>)
   \<and> print_summary (replicate 10 
     \<lparr>s_bot_id = 1, s_entity_id = Some 1, s_connection_id = Some 1,
        s_packets_sent = 600, s_packets_received = 0, s_bytes_sent = 25000,
        s_bytes_received = 0, s_snapshots_received = 0, s_corrections_received = 0,
        s_events_received = 0, s_last_processed_input = 0, s_duration_seconds = 10,
        s_packets_sent_per_sec = 60, s_packets_received_per_sec = 0,
        s_bytes_sent_per_sec = 25000 / 10, s_bytes_received_per_sec = 0,
        s_snapshots_per_sec = 0, s_avg_bandwidth_down_kbps = 0,
        s_avg_bandwidth_up_kbps = 25000 * 8 / 1024 / 10\<rparr>) =
       Inr (Some \<lparr>avg_up_per_bot = 2500, avg_down_per_bot = 0, up_ok = False, down_ok = True\<rparr>)"
proof -
  let ?a = "replicate 10 
     \<lparr>s_bot_id = 1, s_entity_id = Some 1, s_connection_id = Some 1,
        s_packets_sent = 600, s_packets_received = 0, s_bytes_sent = 2048,
        s_bytes_received = 0, s_snapshots_received = 0, s_corrections_received = 0,
        s_events_received = 0, s_last_processed_input = 0, s_duration_seconds = 10,
        s_packets_sent_per_sec = 60, s_packets_received_per_sec = 0,
        s_bytes_sent_per_sec = 2048 / 10, s_bytes_received_per_sec = 0,
        s_snapshots_per_sec = 0, s_avg_bandwidth_down_kbps = 0,
        s_avg_bandwidth_up_kbps = 2048 * 8 / 1024 / 10\<rparr>"
  let ?b = "replicate 10 
     \<lparr>s_bot_id = 1, s_entity_id = Some 1, s_connection_id = Some 1,
        s_packets_sent = 600, s_packets_received = 0, s_bytes_sent = 25000,
        s_bytes_received = 0, s_snapshots_received = 0, s_corrections_received = 0,
        s_events_received = 0, s_last_processed_input = 0, s_duration_seconds = 10,
        s_packets_sent_per_sec = 60, s_packets_received_per_sec = 0,
        s_bytes_sent_per_sec = 25000 / 10, s_bytes_received_per_sec = 0,
        s_snapshots_per_sec = 0, s_avg_bandwidth_down_kbps = 0,
        s_avg_bandwidth_up_kbps = 25000 * 8 / 1024 / 10\<rparr>"
  have ne: "?a \<noteq> []" "?b \<noteq> []" by simp_all
  have d: "py_max (map s_duration_seconds ?a) = 10" "py_max (map s_duration_seconds ?b) = 10"
    by (simp_all add: py_max_def eval_nat_numeral)
  have p: "0 < py_max (map s_duration_seconds ?a)" "0 < py_max (map s_duration_seconds ?b)"
    unfolding d by simp_all
  have l: "length ?a = 10" "length ?b = 10" by simp_all
  have t: "sum_list (map s_bytes_sent ?a) = 20480" "sum_list (map s_bytes_received ?a) = 0"
    "sum_list (map s_bytes_sent ?b) = 250000" "sum_list (map s_bytes_received ?b) = 0"
    by (simp_all add: sum_list_replicate)
  from budget_checks [OF ne(1) p(1)] obtain r where r: "print_summary ?a = Inr (Some r)"
    "avg_up_per_bot r = real_of_int (sum_list (map s_bytes_sent ?a)) / real (length ?a)
          / py_max (map s_duration_seconds ?a)"
    "avg_down_per_bot r = real_of_int (sum_list (map s_bytes_received ?a)) / real (length ?a)
          / py_max (map s_duration_seconds ?a)"
    "up_ok r \<longleftrightarrow> avg_up_per_bot r \<le> MAX_UPSTREAM_BYTES_PER_SEC"
    "down_ok r \<longleftrightarrow> avg_down_per_bot r \<le> MAX_DOWNSTREAM_BYTES_PER_SEC"
    by blast
  have ra: "r = \<lparr>avg_up_per_bot = 204.8, avg_down_per_bot = 0, up_ok = True, down_ok = True\<rparr>"
    using r(2-5) unfolding t d l
    by (cases r) (simp add: MAX_UPSTREAM_BYTES_PER_SEC_def MAX_DOWNSTREAM_BYTES_PER_SEC_def)
  from budget_checks [OF ne(2) p(2)] obtain q where q: "print_summary ?b = Inr (Some q)"
    "avg_up_per_bot q = real_of_int (sum_list (map s_bytes_sent ?b)) / real (length ?b)
          / py_max (map s_duration_seconds ?b)"
    "avg_down_per_bot q = real_of_int (sum_list (map s_bytes_received ?b)) / real (length ?b)
          / py_max (map s_duration_seconds ?b)"
    "up_ok q \<longleftrightarrow> avg_up_per_bot q \<le> MAX_UPSTREAM_BYTES_PER_SEC"
    "down_ok q \<longleftrightarrow> avg_down_per_bot q \<le> MAX_DOWNSTREAM_BYTES_PER_SEC"
    by blast
  have qa: "q = \<lparr>avg_up_per_bot = 2500, avg_down_per_bot = 0, up_ok = False, down_ok = True\<rparr>"
    using q(2-5) unfolding t d l
    by (cases q) (simp add: MAX_UPSTREAM_BYTES_PER_SEC_def MAX_DOWNSTREAM_BYTES_PER_SEC_def)
  from ne(1) d(1) r(1) q(1) show ?thesis unfolding ra qa by blast
qed

section \<open>Further properties\<close>

text \<open>
  Whatever the field values, a connection request that encodes has exactly 13 bytes
  and an input packet that encodes has exactly 18 bytes (and the sequence counter is
  then incremented by one); the connection request encodes whenever the bot id is an
  unsigned 64-bit value.
\<close>

theorem encoded_packet_lengths:
  "(create_connection_request b = Inr bs \<longrightarrow> length bs = 13)
   \<and> (create_input_packet now b = Inr (pkt, b') \<longrightarrow>
        length pkt = 18 \<and> sequence b' = sequence b + 1)
   \<and> (0 \<le> bot_id b \<and> bot_id b < 2 ^ 64 \<longrightarrow> (\<exists>bs. create_connection_request b = Inr bs))"
proof -
  have "create_input_packet now b = Inr (pkt, b') \<longrightarrow> sequence b' = sequence b + 1"
    by (auto simp: create_input_packet_def Let_def bind_r_Inr simp del: struct_pack.simps)
  then show ?thesis
    using create_connection_request_length [of b bs] create_input_packet_length [of now b pkt b']
      create_connection_request_ok [of b]
    by blast
qed

theorem encoded_packet_lengths_witness:
  "create_input_packet 0 (new_bot 1 ''random'' 60 0) =
     Inr ([1, 0, 0, 0, 0, 0, 0, 0, 0, 0, 0, 0, 0, 0, 0, 0, 0, 0],
          (new_bot 1 ''random'' 60 0)\<lparr>sequence := 1\<rparr>)
   \<and> length [1 :: byte, 0, 0, 0, 0, 0, 0, 0, 0, 0, 0, 0, 0, 0, 0, 0, 0, 0] = 18
   \<and> 0 \<le> bot_id (new_bot 1 ''random'' 60 0) \<and> bot_id (new_bot 1 ''random'' 60 0) < 2 ^ 64
   \<and> (\<exists>bs. create_connection_request (new_bot 1 ''random'' 60 0) = Inr bs \<and> length bs = 13)"
proof -
  let ?b = "new_bot 1 ''random'' 60 0"
  let ?pkt = "[1 :: byte, 0, 0, 0, 0, 0, 0, 0, 0, 0, 0, 0, 0, 0, 0, 0, 0, 0]"
  have e: "create_input_packet 0 ?b = Inr (?pkt, ?b\<lparr>sequence := 1\<rparr>)"
    by (simp add: create_input_packet_def new_bot_def input_flags_def no_input_def
        quantize_yaw_def quantize_pitch_def py_int_float_def float_mul_def double_round_0
        py_int_def bind_r_def pack_field_def
        fmt_in_range_def le_bytes_def PACKET_CLIENT_INPUT_def upt_conv_Cons)
  have h: "0 \<le> bot_id ?b \<and> bot_id ?b < 2 ^ 64" by (simp add: new_bot_def)
  from encoded_packet_lengths [of ?b _ 0 ?pkt "?b\<lparr>sequence := 1\<rparr>"] e
  have l: "length ?pkt = 18" by blast
  from encoded_packet_lengths [of ?b _ 0 ?pkt "?b\<lparr>sequence := 1\<rparr>"] h
  obtain bs where bs: "create_connection_request ?b = Inr bs" by blast
  with encoded_packet_lengths [of ?b bs 0 ?pkt "?b\<lparr>sequence := 1\<rparr>"]
  have "length bs = 13" by blast
  with bs e l h show ?thesis by blast
qed

text \<open>
  When at least one bot connects, \<^verbatim>\<open>BotSwarm.run\<close> calls \<^verbatim>\<open>disconnect\<close>
  exactly once on every one of its bots, connected or not, whatever the run tasks
  returned or raised (and on no other bot id).
\<close>

theorem teardown_once_when_some_bot_connected:
  assumes "\<exists>j. 1 \<le> j \<and> j \<le> n \<and> cr j = Returned True"
  shows "disconnect_calls (snd (swarm_run n cr rr)) i = (if 1 \<le> i \<and> i \<le> n then 1 else 0)"
  using assms by (rule swarm_run_disconnects)

theorem teardown_once_when_some_bot_connected_witness:
  "(\<exists>j. 1 \<le> j \<and> j \<le> 3 \<and> (if j = (2 :: nat) then Returned True else Raised) = Returned True)
   \<and> disconnect_calls (snd (swarm_run 3 (\<lambda>i. if i = 2 then Returned True else Raised)
         (\<lambda>i. Raised :: unit task_result))) 1 = 1
   \<and> disconnect_calls (snd (swarm_run 3 (\<lambda>i. if i = 2 then Returned True else Raised)
         (\<lambda>i. Raised :: unit task_result))) 2 = 1
   \<and> disconnect_calls (snd (swarm_run 3 (\<lambda>i. if i = 2 then Returned True else Raised)
         (\<lambda>i. Raised :: unit task_result))) 3 = 1"
proof -
  have h: "\<exists>j. 1 \<le> j \<and> j \<le> 3 \<and> (if j = (2 :: nat) then Returned True else Raised) = Returned True"
    by (intro exI [of _ 2]) simp
  note t = teardown_once_when_some_bot_connected
    [of 3 "\<lambda>i. if i = 2 then Returned True else Raised" "\<lambda>i. Raised :: unit task_result", OF h]
  from t [of 1] t [of 2] t [of 3] h show ?thesis by simp
qed

text \<open>
  \<^verbatim>\<open>connect\<close> never takes its "Connection rejected" branch: the wait for the
  response returns only once the bot is connected, so a rejecting response
  (success byte 0) ends in the timeout instead.
\<close>

theorem connect_rejected_branch_unreachable:
  "snd (fst (connect env b)) \<noteq> LogRejected
   \<and> (fst (wait_for_connection now evs b) = Inr () \<longrightarrow>
        connected (snd (wait_for_connection now evs b)))"
  using connect_never_logs_rejected [of env b]
    wait_for_connection_returns_connected [of now evs b]
  by blast

theorem connect_rejected_branch_unreachable_witness:
  "fst (connect \<lparr>sock = SockOk, send_ok = True,
         recv_events = [Datagram [4, 0, 7, 0, 0, 0, 9, 0, 0, 0, 100, 0, 0, 0, 136, 19, 0, 0]],
         clock = 1000\<rparr> (new_bot 1 ''random'' 60 0)) = (False, LogTimeout)
   \<and> snd (fst (connect \<lparr>sock = SockOk, send_ok = True,
         recv_events = [Datagram [4, 0, 7, 0, 0, 0, 9, 0, 0, 0, 100, 0, 0, 0, 136, 19, 0, 0]],
         clock = 1000\<rparr> (new_bot 1 ''random'' 60 0))) \<noteq> LogRejected"
proof -
  let ?env = "\<lparr>sock = SockOk, send_ok = True,
         recv_events = [Datagram [4, 0, 7, 0, 0, 0, 9, 0, 0, 0, 100, 0, 0, 0, 136, 19, 0, 0]],
         clock = 1000\<rparr>"
  have "fst (connect ?env (new_bot 1 ''random'' 60 0)) = (False, LogTimeout)"
    by (simp add: connect_def new_bot_def create_connection_request_def bind_r_def
        pack_field_def fmt_in_range_def le_bytes_def send_packet_def item_def
        parse_connection_response_def PACKET_CONNECTION_RESPONSE_def
        PACKET_CONNECTION_REQUEST_def PROTOCOL_VERSION_def Let_def)
  with connect_rejected_branch_unreachable [of ?env "new_bot 1 ''random'' 60 0"]
  show ?thesis by blast
qed

end
